theory Spec2Isabelle
  imports Complex_Main "HOL-Library.Monad_Syntax" "HOL-Library.AList" "HOL-Library.Log_Nat"
begin

section \<open>JavaScript numbers\<close>

text \<open>
  The document held by \<^verbatim>\<open>TGSKit._data\<close> is typed \<^verbatim>\<open>any\<close>; its numbers are IEEE 754
  binary64 values. A finite value is the rational it denotes; the two zeros, the two
  infinities and NaN are kept apart, since \<^verbatim>\<open>(op - ip) / fr\<close> tells them apart.
  \<open>Fin 0\<close> is the positive zero.
\<close>

datatype jsnum = NaN | PosInf | NegInf | NegZero | Fin rat

text \<open>\<open>ilog2 a\<close> is the binary exponent of a positive rational: \<open>2^e \<le> a < 2^(e+1)\<close>.\<close>

definition ilog2 :: "rat \<Rightarrow> int" where
  "ilog2 a = (if 1 \<le> a then bitlen \<lfloor>a\<rfloor> - 1 else - bitlen (\<lceil>1 / a\<rceil> - 1))"

definition round_half_even :: "rat \<Rightarrow> int" where
  "round_half_even m =
     (let f = \<lfloor>m\<rfloor>; d = m - of_int f
      in if d < 1 / 2 then f else if 1 / 2 < d then f + 1 else if even f then f else f + 1)"

text \<open>
  Rounding of an exact non-zero result to binary64, to nearest with ties to even: 53 bits
  of significand, exponents from -1022 (below it the spacing stays \<open>2^-1074\<close>) to 1023
  (above it the result is an infinity).
\<close>

definition round64 :: "rat \<Rightarrow> jsnum" where
  "round64 x =
     (let a = \<bar>x\<bar>;
          e = max (ilog2 a) (- 1022);
          q = 2 powi (e - 52);
          n = round_half_even (a / q)
      in if 2 ^ 1024 \<le> of_int n * q then (if x < 0 then NegInf else PosInf)
         else if n = 0 then (if x < 0 then NegZero else Fin 0)
         else Fin (if x < 0 then - (of_int n * q) else of_int n * q))"

fun negative :: "jsnum \<Rightarrow> bool" where
  "negative NegInf = True"
| "negative NegZero = True"
| "negative (Fin r) = (r < 0)"
| "negative _ = False"

fun infinite :: "jsnum \<Rightarrow> bool" where
  "infinite PosInf = True"
| "infinite NegInf = True"
| "infinite _ = False"

fun val :: "jsnum \<Rightarrow> rat" where
  "val (Fin r) = r"
| "val _ = 0"

definition signed_inf :: "bool \<Rightarrow> jsnum" where
  "signed_inf neg = (if neg then NegInf else PosInf)"

definition signed_zero :: "bool \<Rightarrow> jsnum" where
  "signed_zero neg = (if neg then NegZero else Fin 0)"

text \<open>\<^verbatim>\<open>a - b\<close> on numbers.\<close>

definition js_sub :: "jsnum \<Rightarrow> jsnum \<Rightarrow> jsnum" where
  "js_sub a b =
     (if a = NaN \<or> b = NaN then NaN
      else if infinite a \<and> infinite b then (if a = b then NaN else a)
      else if infinite a then a
      else if infinite b then signed_inf (b = PosInf)
      else if val a - val b = 0 then signed_zero (a = NegZero \<and> b \<noteq> NegZero)
      else round64 (val a - val b))"

text \<open>\<^verbatim>\<open>a / b\<close> on numbers.\<close>

definition js_div :: "jsnum \<Rightarrow> jsnum \<Rightarrow> jsnum" where
  "js_div a b =
     (if a = NaN \<or> b = NaN then NaN
      else if infinite a \<and> infinite b then NaN
      else if infinite a then signed_inf (negative a \<noteq> negative b)
      else if infinite b then signed_zero (negative a \<noteq> negative b)
      else if val b = 0 then (if val a = 0 then NaN else signed_inf (negative a \<noteq> negative b))
      else if val a = 0 then signed_zero (negative a \<noteq> negative b)
      else round64 (val a / val b))"

text \<open>\<^verbatim>\<open>a > b\<close> on numbers: false as soon as one side is NaN.\<close>

definition js_gt :: "jsnum \<Rightarrow> jsnum \<Rightarrow> bool" where
  "js_gt a b =
     (if a = NaN \<or> b = NaN then False
      else if a = PosInf then b \<noteq> PosInf
      else if b = NegInf then a \<noteq> NegInf
      else if a = NegInf \<or> b = PosInf then False
      else val b < val a)"

text \<open>Equality of two numbers (\<^verbatim>\<open>==\<close> and \<^verbatim>\<open>===\<close> agree on numbers): NaN equals nothing,
  the two zeros are equal.\<close>

definition js_eq :: "jsnum \<Rightarrow> jsnum \<Rightarrow> bool" where
  "js_eq a b =
     (if a = NaN \<or> b = NaN then False
      else if infinite a \<or> infinite b then a = b
      else val a = val b)"

section \<open>Values and the host\<close>

text \<open>
  The values a document is made of: what \<^verbatim>\<open>JSON.parse\<close> builds, and \<^verbatim>\<open>undefined\<close>. An object
  is the list of its own properties in insertion order (the first entry of a key is the
  one read); its prototype is \<^verbatim>\<open>Object.prototype\<close>, an array's \<^verbatim>\<open>Array.prototype\<close>.
\<close>

datatype jsval =
    JUndefined
  | JNull
  | JBool bool
  | JNum jsnum
  | JStr string
  | JArr "jsval list"
  | JObj "(string \<times> jsval) list"

text \<open>The outcome of \<^verbatim>\<open>fetchPath\<close>: the promise resolves with the parsed response, rejects,
  or never settles (the handler only acts on ready state 4 with status 200).\<close>

datatype fetched = Resolved jsval | Rejected | Pending

text \<open>
  What the class takes from its environment, as parameters: \<^verbatim>\<open>JSON.parse\<close> (\<open>None\<close> when it
  throws), the \<^verbatim>\<open>URL\<close> constructor on a string (\<open>None\<close> when it throws, otherwise the
  \<^verbatim>\<open>toString()\<close> of the URL), the network behind \<^verbatim>\<open>fetchPath\<close>, the byte length of
  \<^verbatim>\<open>pako.gzip(JSON.stringify(v))\<close>, and the conversions between numbers and strings.
\<close>

record host =
  JSON_parse :: "string \<Rightarrow> jsval option"
  new_URL :: "string \<Rightarrow> string option"
  fetchPath :: "string \<Rightarrow> fetched"
  gzip_size :: "jsval \<Rightarrow> nat"
  StringToNumber :: "string \<Rightarrow> jsnum"
  NumberToString :: "jsnum \<Rightarrow> string"

text \<open>A result is \<open>None\<close> when the expression throws a \<^verbatim>\<open>TypeError\<close>.\<close>

fun nullish :: "jsval \<Rightarrow> bool" where
  "nullish JUndefined = True"
| "nullish JNull = True"
| "nullish _ = False"

fun isArray :: "jsval \<Rightarrow> bool" where
  "isArray (JArr xs) = True"
| "isArray _ = False"

text \<open>\<^verbatim>\<open>typeof v === 'object'\<close>.\<close>

fun typeof_object :: "jsval \<Rightarrow> bool" where
  "typeof_object JNull = True"
| "typeof_object (JArr xs) = True"
| "typeof_object (JObj kvs) = True"
| "typeof_object _ = False"

text \<open>
  \<^verbatim>\<open>v.k\<close> for the property names this program reads (\<^verbatim>\<open>fr\<close>, \<^verbatim>\<open>op\<close>, \<^verbatim>\<open>ty\<close>, \<^verbatim>\<open>it\<close>, ...): none of
  them is a property of a primitive, of an array or of a prototype, so only an object's own
  entry is found; reading a property of \<^verbatim>\<open>null\<close> or \<^verbatim>\<open>undefined\<close> throws.
\<close>

fun get_prop :: "jsval \<Rightarrow> string \<Rightarrow> jsval option" where
  "get_prop JUndefined k = None"
| "get_prop JNull k = None"
| "get_prop (JObj kvs) k = (case map_of kvs k of None \<Rightarrow> Some JUndefined | Some v \<Rightarrow> Some v)"
| "get_prop _ k = Some JUndefined"

text \<open>\<^verbatim>\<open>k in v\<close> for the names this program tests: it throws unless \<open>v\<close> is an object.\<close>

fun has_prop :: "string \<Rightarrow> jsval \<Rightarrow> bool option" where
  "has_prop k (JObj kvs) = Some (k \<in> fst ` set kvs)"
| "has_prop k (JArr xs) = Some False"
| "has_prop k _ = None"

text \<open>\<^verbatim>\<open>ToBoolean\<close>.\<close>

fun truthy :: "jsval \<Rightarrow> bool" where
  "truthy JUndefined = False"
| "truthy JNull = False"
| "truthy (JBool b) = b"
| "truthy (JNum n) = (n \<noteq> NaN \<and> (infinite n \<or> val n \<noteq> 0))"
| "truthy (JStr s) = (s \<noteq> [])"
| "truthy _ = True"

text \<open>
  \<^verbatim>\<open>ToString\<close>. An array joins its elements with commas, \<^verbatim>\<open>null\<close> and \<^verbatim>\<open>undefined\<close> as empty
  strings; an object is \<^verbatim>\<open>[object Object]\<close>, unless an own property \<^verbatim>\<open>toString\<close> (never
  callable in such data) hides the prototype's method: then the conversion throws.
\<close>

fun ToString :: "host \<Rightarrow> jsval \<Rightarrow> string option"
  and join :: "host \<Rightarrow> jsval list \<Rightarrow> string option" where
  "ToString h JUndefined = Some ''undefined''"
| "ToString h JNull = Some ''null''"
| "ToString h (JBool b) = Some (if b then ''true'' else ''false'')"
| "ToString h (JNum n) = Some (NumberToString h n)"
| "ToString h (JStr s) = Some s"
| "ToString h (JArr xs) = join h xs"
| "ToString h (JObj kvs) =
     (if ''toString'' \<in> fst ` set kvs then None else Some ''[object Object]'')"
| "join h [] = Some []"
| "join h (x # xs) = do {
     s \<leftarrow> (if nullish x then Some [] else ToString h x);
     if xs = [] then Some s else do { r \<leftarrow> join h xs; Some (s @ '','' @ r) }
   }"

text \<open>\<^verbatim>\<open>ToPrimitive\<close>: an object or array becomes its string.\<close>

definition ToPrimitive :: "host \<Rightarrow> jsval \<Rightarrow> jsval option" where
  "ToPrimitive h v =
     (case v of
        JArr xs \<Rightarrow> map_option JStr (ToString h v)
      | JObj kvs \<Rightarrow> map_option JStr (ToString h v)
      | _ \<Rightarrow> Some v)"

text \<open>\<^verbatim>\<open>ToNumber\<close>.\<close>

definition ToNumber :: "host \<Rightarrow> jsval \<Rightarrow> jsnum option" where
  "ToNumber h v = do {
     p \<leftarrow> ToPrimitive h v;
     Some (case p of
        JUndefined \<Rightarrow> NaN
      | JNull \<Rightarrow> Fin 0
      | JBool b \<Rightarrow> Fin (if b then 1 else 0)
      | JNum n \<Rightarrow> n
      | JStr s \<Rightarrow> StringToNumber h s
      | _ \<Rightarrow> NaN)
   }"

text \<open>\<^verbatim>\<open>v == n\<close> for a number \<open>n\<close>.\<close>

definition loose_eq_num :: "host \<Rightarrow> jsval \<Rightarrow> jsnum \<Rightarrow> bool option" where
  "loose_eq_num h v n = do {
     p \<leftarrow> ToPrimitive h v;
     Some (case p of
        JBool b \<Rightarrow> js_eq (Fin (if b then 1 else 0)) n
      | JNum m \<Rightarrow> js_eq m n
      | JStr s \<Rightarrow> js_eq (StringToNumber h s) n
      | _ \<Rightarrow> False)
   }"

text \<open>\<^verbatim>\<open>v == s\<close> for a string \<open>s\<close>.\<close>

definition loose_eq_str :: "host \<Rightarrow> jsval \<Rightarrow> string \<Rightarrow> bool option" where
  "loose_eq_str h v s = do {
     p \<leftarrow> ToPrimitive h v;
     Some (case p of
        JBool b \<Rightarrow> js_eq (Fin (if b then 1 else 0)) (StringToNumber h s)
      | JNum m \<Rightarrow> js_eq m (StringToNumber h s)
      | JStr t \<Rightarrow> t = s
      | _ \<Rightarrow> False)
   }"

text \<open>\<^verbatim>\<open>v === n\<close> for a number \<open>n\<close>, and \<^verbatim>\<open>v === true\<close>.\<close>

fun strict_eq_num :: "jsval \<Rightarrow> jsnum \<Rightarrow> bool" where
  "strict_eq_num (JNum m) n = js_eq m n"
| "strict_eq_num _ n = False"

text \<open>The short-circuit operators on expressions that may throw.\<close>

definition andalso :: "bool option \<Rightarrow> bool option \<Rightarrow> bool option" where
  "andalso a b = do { x \<leftarrow> a; if x then b else Some False }"

definition orelse :: "bool option \<Rightarrow> bool option \<Rightarrow> bool option" where
  "orelse a b = do { x \<leftarrow> a; if x then Some True else b }"

text \<open>\<^verbatim>\<open>o.k != n\<close>, \<^verbatim>\<open>o.k != null\<close>, \<^verbatim>\<open>o.k === n\<close>, \<^verbatim>\<open>o.k === true\<close>, \<^verbatim>\<open>Array.isArray(o.k)\<close>.\<close>

definition field_ne :: "host \<Rightarrow> jsval \<Rightarrow> string \<Rightarrow> jsnum \<Rightarrow> bool option" where
  "field_ne h ob k n = do { v \<leftarrow> get_prop ob k; e \<leftarrow> loose_eq_num h v n; Some (\<not> e) }"

definition field_not_null :: "jsval \<Rightarrow> string \<Rightarrow> bool option" where
  "field_not_null ob k = do { v \<leftarrow> get_prop ob k; Some (\<not> nullish v) }"

definition field_is :: "jsval \<Rightarrow> string \<Rightarrow> jsnum \<Rightarrow> bool option" where
  "field_is ob k n = do { v \<leftarrow> get_prop ob k; Some (strict_eq_num v n) }"

definition field_is_true :: "jsval \<Rightarrow> string \<Rightarrow> bool option" where
  "field_is_true ob k = do { v \<leftarrow> get_prop ob k; Some (v = JBool True) }"

definition field_isArray :: "jsval \<Rightarrow> string \<Rightarrow> bool option" where
  "field_isArray ob k = do { v \<leftarrow> get_prop ob k; Some (isArray v) }"

text \<open>\<^verbatim>\<open>k in o && Array.isArray(o.k)\<close>.\<close>

definition has_list :: "jsval \<Rightarrow> string \<Rightarrow> bool option" where
  "has_list ob k = andalso (has_prop k ob) (field_isArray ob k)"

section \<open>Diagnostics\<close>

text \<open>\<^verbatim>\<open>interface IValidationError { message: string; details?: IValidationError[] }\<close>\<close>

datatype diag = Diag (message: string) (details: "diag list option")

text \<open>\<^verbatim>\<open>if (c) { errors.push(e) }\<close>: what the statement adds to \<open>errors\<close>.\<close>

definition push_if :: "bool \<Rightarrow> 'a \<Rightarrow> 'a list" where
  "push_if c e = (if c then [e] else [])"

text \<open>\<^verbatim>\<open>xs.forEach(f)\<close> where each call of \<open>f\<close> pushes some entries or throws.\<close>

fun forEach :: "('a \<Rightarrow> 'b list option) \<Rightarrow> 'a list \<Rightarrow> 'b list option" where
  "forEach f [] = Some []"
| "forEach f (x # xs) = do { a \<leftarrow> f x; b \<leftarrow> forEach f xs; Some (a @ b) }"

lemma forEach_cong [fundef_cong]:
  "xs = ys \<Longrightarrow> (\<And>x. x \<in> set ys \<Longrightarrow> f x = g x) \<Longrightarrow> forEach f xs = forEach g ys"
  by (induction ys arbitrary: xs) auto

section \<open>The validation engine\<close>

subsection \<open>Shape items\<close>

text \<open>\<^verbatim>\<open>item.ty == s\<close>\<close>

definition ty_is :: "host \<Rightarrow> jsval \<Rightarrow> string \<Rightarrow> bool option" where
  "ty_is h item s = do { ty \<leftarrow> get_prop item ''ty''; loose_eq_str h ty s }"

text \<open>
  \<^verbatim>\<open>checkItems(items, shapes)\<close>. \<^verbatim>\<open>items.forEach\<close> exists on arrays only: on any other value
  that is not \<^verbatim>\<open>null\<close> or \<^verbatim>\<open>undefined\<close> the call throws.
\<close>

function checkItems :: "host \<Rightarrow> jsval \<Rightarrow> bool \<Rightarrow> diag list option" where
  "checkItems h items shapes =
     (if nullish items then Some []
      else case items of
        JArr xs \<Rightarrow>
          forEach (\<lambda>item. do {
            rp \<leftarrow> ty_is h item ''rp'';
            sr \<leftarrow> ty_is h item ''sr'';
            mm \<leftarrow> ty_is h item ''mm'';
            gs \<leftarrow> ty_is h item ''gs'';
            nested \<leftarrow>
              (if shapes then do {
                 it \<leftarrow> get_prop item ''it'';
                 itemErrors \<leftarrow> checkItems h it False;
                 Some (push_if (itemErrors \<noteq> [])
                   (Diag ''Composition items should not have errors'' (Some itemErrors)))
               } else Some []);
            Some (push_if rp (Diag ''Composition should not include any Repeaters'' None)
              @ push_if sr (Diag ''Composition should not include any Star Shapes'' None)
              @ push_if mm (Diag ''Composition should not include any Merge Paths'' None)
              @ push_if gs (Diag ''Composition should not include any Gradient Strokes'' None)
              @ nested)
          }) xs
      | _ \<Rightarrow> None)"
  by pat_completeness auto
termination
  by (relation "measure (\<lambda>(h, items, shapes). if shapes then 1 else 0)") auto

declare checkItems.simps [simp del]

subsection \<open>Layers\<close>

text \<open>\<^verbatim>\<open>checkLayer(layer)\<close>\<close>

definition checkLayer :: "host \<Rightarrow> jsval \<Rightarrow> diag list option" where
  "checkLayer h layer = do {
     ddd \<leftarrow> andalso (field_not_null layer ''ddd'') (field_ne h layer ''ddd'' (Fin 0));
     sr \<leftarrow> andalso (field_not_null layer ''sr'') (field_ne h layer ''sr'' (Fin 1));
     tm \<leftarrow> field_not_null layer ''tm'';
     solid \<leftarrow> field_is layer ''ty'' (Fin 1);
     image \<leftarrow> field_is layer ''ty'' (Fin 2);
     texts \<leftarrow> field_is layer ''ty'' (Fin 5);
     mask \<leftarrow> orelse (field_is_true layer ''hasMask'') (field_not_null layer ''masksProperties'');
     tt \<leftarrow> field_not_null layer ''tt'';
     ao \<leftarrow> field_is layer ''ao'' (Fin 1);
     ef \<leftarrow> field_not_null layer ''ef'';
     has_shapes \<leftarrow> has_list layer ''shapes'';
     shapes \<leftarrow>
       (if has_shapes then do {
          items \<leftarrow> get_prop layer ''shapes'';
          shapesErrors \<leftarrow> checkItems h items True;
          Some (push_if (shapesErrors \<noteq> [])
            (Diag ''Composition shapes should not have errors'' (Some shapesErrors)))
        } else Some []);
     Some (push_if ddd (Diag ''Composition should not include any 3D Layers'' None)
       @ push_if sr (Diag ''Composition should not include any Time Stretching'' None)
       @ push_if tm (Diag ''Composition should not include any Time Remapping'' None)
       @ push_if solid (Diag ''Composition should not include any Solids'' None)
       @ push_if image (Diag ''Composition should not include any Images'' None)
       @ push_if texts (Diag ''Composition should not include any Texts'' None)
       @ push_if mask (Diag ''Composition should not include any Masks'' None)
       @ push_if tt (Diag ''Composition should not include any Mattes'' None)
       @ push_if ao (Diag ''Composition should not include any Auto-Oriented Layers'' None)
       @ push_if ef (Diag ''Composition should not include any Layer Effects'' None)
       @ shapes)
   }"

subsection \<open>The document\<close>

text \<open>The label of an asset in its diagnostic: \<^verbatim>\<open>${asset.id || i}\<close>.\<close>

definition asset_label :: "host \<Rightarrow> jsval \<Rightarrow> nat \<Rightarrow> string option" where
  "asset_label h asset i = do {
     ident \<leftarrow> get_prop asset ''id'';
     ToString h (if truthy ident then ident else JNum (Fin (of_nat i)))
   }"

text \<open>
  The callback of \<^verbatim>\<open>this._data.assets.forEach((asset, i) => ...)\<close>, from index \<open>i\<close> on. It hands
  \<^verbatim>\<open>asset.layers\<close>, the list itself, to \<^verbatim>\<open>checkLayer\<close>.
\<close>

fun assetsLoop :: "host \<Rightarrow> jsval list \<Rightarrow> nat \<Rightarrow> diag list option" where
  "assetsLoop h [] i = Some []"
| "assetsLoop h (asset # rest) i = do {
     has_layers \<leftarrow> has_list asset ''layers'';
     pushed \<leftarrow>
       (if has_layers then do {
          layers \<leftarrow> get_prop asset ''layers'';
          assetErrors \<leftarrow> checkLayer h layers;
          if assetErrors \<noteq> [] then do {
            label \<leftarrow> asset_label h asset i;
            Some [Diag (''Asset '' @ label @ '' has errors'') (Some assetErrors)]
          } else Some []
        } else Some []);
     more \<leftarrow> assetsLoop h rest (i + 1);
     Some (pushed @ more)
   }"

text \<open>
  The callback of \<^verbatim>\<open>this._data.layers.forEach((layer) => ...)\<close>. Inside the loop it pushes to
  \<open>errors\<close> an entry \<^verbatim>\<open>{ message: 'Layers have errors', details: layersErrors }\<close> every time
  \<open>layersErrors\<close> is not empty. Each of these entries holds the one array \<open>layersErrors\<close>,
  not a copy, so the caller finds in every one of them what the array holds when the loop
  ends. The loop therefore returns that final array and the number of entries pushed.
\<close>

fun layersLoop :: "host \<Rightarrow> jsval list \<Rightarrow> diag list \<Rightarrow> nat \<Rightarrow> (diag list \<times> nat) option" where
  "layersLoop h [] layersErrors pushes = Some (layersErrors, pushes)"
| "layersLoop h (layer # rest) layersErrors pushes = do {
     layerErrors \<leftarrow> checkLayer h layer;
     let layersErrors' = layersErrors @ push_if (layerErrors \<noteq> []) (Diag ''Layer '' (Some layerErrors));
     layersLoop h rest layersErrors' (if layersErrors' \<noteq> [] then pushes + 1 else pushes)
   }"

text \<open>The elements of an array.\<close>

fun elems :: "jsval \<Rightarrow> jsval list" where
  "elems (JArr xs) = xs"
| "elems _ = []"

text \<open>\<^verbatim>\<open>k in d && Array.isArray(d.k) && d.k.length > 0\<close>\<close>

definition has_nonempty_list :: "jsval \<Rightarrow> string \<Rightarrow> bool option" where
  "has_nonempty_list d k =
     andalso (has_list d k) (do { v \<leftarrow> get_prop d k; Some (elems v \<noteq> []) })"

text \<open>\<^verbatim>\<open>((d.op - d.ip) / d.fr) > 3.0\<close>\<close>

definition longer_than_3 :: "host \<Rightarrow> jsval \<Rightarrow> bool option" where
  "longer_than_3 h d = do {
     op \<leftarrow> get_prop d ''op'';
     ip \<leftarrow> get_prop d ''ip'';
     a \<leftarrow> ToNumber h op;
     b \<leftarrow> ToNumber h ip;
     fr \<leftarrow> get_prop d ''fr'';
     c \<leftarrow> ToNumber h fr;
     Some (js_gt (js_div (js_sub a b) c) (Fin 3))
   }"

text \<open>
  \<^verbatim>\<open>generate()\<close>: sets \<^verbatim>\<open>tgs\<close> to 1 and deletes \<^verbatim>\<open>markers\<close>, \<^verbatim>\<open>fonts\<close> and \<^verbatim>\<open>chars\<close> in the document
  itself, then compresses its JSON text. It returns the size of the blob and the document
  as it leaves it. An assigned property keeps its place if the object has it and comes last
  otherwise. On an array the assignment adds a named property that neither the JSON text
  nor any later read shows, so the array stands as it is; on \<^verbatim>\<open>null\<close>, \<^verbatim>\<open>undefined\<close> and
  (the class body being strict code) on a primitive the assignment throws.
\<close>

definition generate :: "host \<Rightarrow> jsval \<Rightarrow> (nat \<times> jsval) option" where
  "generate h d =
     (case d of
        JObj kvs \<Rightarrow>
          (let d' = JObj (AList.delete ''chars'' (AList.delete ''fonts'' (AList.delete ''markers''
                      (AList.update ''tgs'' (JNum (Fin 1)) kvs))))
           in Some (gzip_size h d', d'))
      | JArr xs \<Rightarrow> Some (gzip_size h d, d)
      | _ \<Rightarrow> None)"

text \<open>The block of \<^verbatim>\<open>validate\<close> under \<^verbatim>\<open>'assets' in this._data && ...\<close>: what it pushes to
  \<open>errors\<close>.\<close>

definition assets_block :: "host \<Rightarrow> jsval \<Rightarrow> diag list option" where
  "assets_block h d = do {
     has_assets \<leftarrow> has_list d ''assets'';
     if has_assets then do {
       xs \<leftarrow> get_prop d ''assets'';
       assetsErrors \<leftarrow> assetsLoop h (elems xs) 0;
       Some (push_if (assetsErrors \<noteq> [])
         (Diag ''Assets must not have errors'' (Some assetsErrors)))
     } else Some []
   }"

text \<open>The block under \<^verbatim>\<open>'layers' in this._data && ...\<close> with its \<^verbatim>\<open>else\<close>.\<close>

definition layers_block :: "host \<Rightarrow> jsval \<Rightarrow> diag list option" where
  "layers_block h d = do {
     has_layers \<leftarrow> has_list d ''layers'';
     if has_layers then do {
       xs \<leftarrow> get_prop d ''layers'';
       (layersErrors, pushes) \<leftarrow> layersLoop h (elems xs) [] 0;
       Some (replicate pushes (Diag ''Layers have errors'' (Some layersErrors)))
     } else Some [Diag ''Should have atleast 1 layer'' None]
   }"

text \<open>
  \<^verbatim>\<open>validate()\<close>: the diagnostics it returns and the document it leaves in \<^verbatim>\<open>_data\<close>, or
  \<open>None\<close> when it throws. The block under \<^verbatim>\<open>'markers' in this._data\<close> holds comments only.
\<close>

definition validate :: "host \<Rightarrow> jsval \<Rightarrow> (diag list \<times> jsval) option" where
  "validate h d = do {
     fr \<leftarrow> andalso (field_ne h d ''fr'' (Fin 30)) (field_ne h d ''fr'' (Fin 60));
     long \<leftarrow> longer_than_3 h d;
     dims \<leftarrow> orelse (field_ne h d ''w'' (Fin 512)) (field_ne h d ''h'' (Fin 512));
     ddd \<leftarrow> andalso (field_not_null d ''ddd'') (field_ne h d ''ddd'' (Fin 0));
     markers \<leftarrow> has_prop ''markers'' d;
     assets \<leftarrow> assets_block h d;
     layers \<leftarrow> layers_block h d;
     fonts \<leftarrow> has_nonempty_list d ''fonts'';
     chars \<leftarrow> has_nonempty_list d ''chars'';
     (size, d') \<leftarrow> generate h d;
     Some (push_if fr (Diag ''Frame rate must be exactly 30 or 60'' None)
       @ push_if long (Diag ''Should not be longer than 3 seconds'' None)
       @ push_if dims (Diag ''Dimensions should be exactly 512pxx512px'' None)
       @ push_if ddd (Diag ''Should not have 3D layers'' None)
       @ assets
       @ layers
       @ push_if fonts (Diag ''Should not have fonts'' None)
       @ push_if chars (Diag ''Should not have glyph chars'' None)
       @ push_if (65536 < size) (Diag ''Total sticker size should not exceed 64 KB'' None),
       d')
   }"

section \<open>The validation of \<^verbatim>\<open>src/TGSKit.ts\<close>\<close>

text \<open>
  The repository holds the class twice. The file \<^verbatim>\<open>src/TGSKit.ts\<close> has an earlier
  \<^verbatim>\<open>validate\<close> whose diagnostics are plain strings; its functions carry the prefix
  \<open>TGSKit_\<close> here. It collects the findings of a callee with \<^verbatim>\<open>errors.concat(...)\<close> as a
  statement: the callee runs (and may throw), \<^verbatim>\<open>concat\<close> builds a new array that is
  dropped, and \<open>errors\<close> stays as it was.
\<close>

definition concat_dropped :: "'a list option \<Rightarrow> 'a list option" where
  "concat_dropped r = do { found \<leftarrow> r; Some [] }"

function TGSKit_checkItems :: "host \<Rightarrow> jsval \<Rightarrow> bool \<Rightarrow> string list option" where
  "TGSKit_checkItems h items shapes =
     (if nullish items then Some []
      else case items of
        JArr xs \<Rightarrow>
          forEach (\<lambda>item. do {
            rp \<leftarrow> ty_is h item ''rp'';
            sr \<leftarrow> ty_is h item ''sr'';
            mm \<leftarrow> ty_is h item ''mm'';
            gs \<leftarrow> ty_is h item ''gs'';
            nested \<leftarrow>
              (if shapes then do {
                 it \<leftarrow> get_prop item ''it'';
                 concat_dropped (TGSKit_checkItems h it False)
               } else Some []);
            Some (push_if rp ''Composition should not include any Repeaters''
              @ push_if sr ''Composition should not include any Star Shapes''
              @ push_if mm ''Composition should not include any Merge Paths''
              @ push_if gs ''Composition should not include any Gradient Strokes''
              @ nested)
          }) xs
      | _ \<Rightarrow> None)"
  by pat_completeness auto
termination
  by (relation "measure (\<lambda>(h, items, shapes). if shapes then 1 else 0)") auto

declare TGSKit_checkItems.simps [simp del]

definition TGSKit_checkLayer :: "host \<Rightarrow> jsval \<Rightarrow> string list option" where
  "TGSKit_checkLayer h layer = do {
     ddd \<leftarrow> andalso (field_not_null layer ''ddd'') (field_ne h layer ''ddd'' (Fin 0));
     sr \<leftarrow> andalso (field_not_null layer ''sr'') (field_ne h layer ''sr'' (Fin 1));
     tm \<leftarrow> field_not_null layer ''tm'';
     solid \<leftarrow> field_is layer ''ty'' (Fin 1);
     image \<leftarrow> field_is layer ''ty'' (Fin 2);
     texts \<leftarrow> field_is layer ''ty'' (Fin 5);
     mask \<leftarrow> orelse (field_is_true layer ''hasMask'') (field_not_null layer ''masksProperties'');
     tt \<leftarrow> field_not_null layer ''tt'';
     ao \<leftarrow> field_is layer ''ao'' (Fin 1);
     ef \<leftarrow> field_not_null layer ''ef'';
     items \<leftarrow> get_prop layer ''shapes'';
     shapes \<leftarrow> concat_dropped (TGSKit_checkItems h items True);
     Some (push_if ddd ''Composition should not include any 3D Layers''
       @ push_if sr ''Composition should not include any Time Stretching''
       @ push_if tm ''Composition should not include any Time Remapping''
       @ push_if solid ''Composition should not include any Solids''
       @ push_if image ''Composition should not include any Images''
       @ push_if texts ''Composition should not include any Texts''
       @ push_if mask ''Composition should not include any Masks''
       @ push_if tt ''Composition should not include any Mattes''
       @ push_if ao ''Composition should not include any Auto-Oriented Layers''
       @ push_if ef ''Composition should not include any Layer Effects''
       @ shapes)
   }"

definition TGSKit_assets_block :: "host \<Rightarrow> jsval \<Rightarrow> string list option" where
  "TGSKit_assets_block h d = do {
     has_assets \<leftarrow> has_list d ''assets'';
     if has_assets then do {
       xs \<leftarrow> get_prop d ''assets'';
       forEach (\<lambda>asset. do {
         layers \<leftarrow> get_prop asset ''layers'';
         concat_dropped (TGSKit_checkLayer h layers)
       }) (elems xs)
     } else Some []
   }"

definition TGSKit_layers_block :: "host \<Rightarrow> jsval \<Rightarrow> string list option" where
  "TGSKit_layers_block h d = do {
     has_layers \<leftarrow> has_list d ''layers'';
     if has_layers then do {
       xs \<leftarrow> get_prop d ''layers'';
       forEach (\<lambda>layer. concat_dropped (TGSKit_checkLayer h layer)) (elems xs)
     } else Some [''Must have atleast 1 layer'']
   }"

text \<open>This \<^verbatim>\<open>validate()\<close> does not call \<^verbatim>\<open>generate()\<close>: it leaves the document as it is.\<close>

definition TGSKit_validate :: "host \<Rightarrow> jsval \<Rightarrow> string list option" where
  "TGSKit_validate h d = do {
     long \<leftarrow> longer_than_3 h d;
     dims \<leftarrow> orelse (field_ne h d ''w'' (Fin 512)) (field_ne h d ''h'' (Fin 512));
     ddd \<leftarrow> andalso (field_not_null d ''ddd'') (field_ne h d ''ddd'' (Fin 0));
     markers \<leftarrow> has_prop ''markers'' d;
     assets \<leftarrow> TGSKit_assets_block h d;
     layers \<leftarrow> TGSKit_layers_block h d;
     Some (push_if long ''Longer than 3 seconds''
       @ push_if dims ''Dimensions should be exactly 512pxx512px''
       @ push_if ddd ''Must not have 3D layers''
       @ push_if markers ''Must not have markers''
       @ assets
       @ layers)
   }"

section \<open>The loader\<close>

text \<open>\<^verbatim>\<open>parseJSON(src)\<close> returns \<^verbatim>\<open>false\<close> when \<^verbatim>\<open>JSON.parse\<close> throws.\<close>

definition parseJSON :: "host \<Rightarrow> string \<Rightarrow> jsval" where
  "parseJSON h src = (case JSON_parse h src of Some v \<Rightarrow> v | None \<Rightarrow> JBool False)"

text \<open>
  \<^verbatim>\<open>parseURL(src)\<close>: \<^verbatim>\<open>new URL(src)\<close> converts its argument to a string first, whatever the
  cast in the caller says; \<open>None\<close> stands for the \<^verbatim>\<open>false\<close> it returns when the constructor
  throws, \<open>Some u\<close> for a URL whose \<^verbatim>\<open>toString()\<close> is \<open>u\<close>.
\<close>

definition parseURL :: "host \<Rightarrow> jsval \<Rightarrow> string option" where
  "parseURL h src = do { s \<leftarrow> ToString h src; new_URL h s }"

text \<open>The two errors \<^verbatim>\<open>load\<close> throws: \<^verbatim>\<open>'Error loading remote resource.'\<close> and
  \<^verbatim>\<open>'Given resource could not be loaded or is invalid.'\<close>\<close>

datatype load_error = RemoteError | InvalidResource

text \<open>How \<^verbatim>\<open>load\<close> ends: it stores a document in \<^verbatim>\<open>_data\<close>, it throws (and \<^verbatim>\<open>_data\<close> stays), or
  its promise never settles.\<close>

datatype loaded = Stored jsval | Thrown load_error | NeverSettles

text \<open>The last two statements of \<^verbatim>\<open>load\<close>.\<close>

definition store :: "jsval \<Rightarrow> loaded" where
  "store src = (if typeof_object src then Stored src else Thrown InvalidResource)"

text \<open>\<^verbatim>\<open>load(src)\<close>: how it ends, and the URLs it fetched.\<close>

definition load :: "host \<Rightarrow> jsval \<Rightarrow> loaded \<times> string list" where
  "load h src =
     (case src of
        JStr s \<Rightarrow>
          (let json = parseJSON h s;
               src1 = (if json \<noteq> JBool False then json else src)
           in case parseURL h src1 of
                Some url \<Rightarrow>
                  (case fetchPath h url of
                     Resolved v \<Rightarrow> (store v, [url])
                   | Rejected \<Rightarrow> (Thrown RemoteError, [url])
                   | Pending \<Rightarrow> (NeverSettles, [url]))
              | None \<Rightarrow> (store src1, []))
      | _ \<Rightarrow> (store src, []))"

section \<open>Documents on which \<^verbatim>\<open>validate\<close> returns\<close>

text \<open>The value a property read gives where it does not throw.\<close>

definition field :: "jsval \<Rightarrow> string \<Rightarrow> jsval" where
  "field v k = (case get_prop v k of Some x \<Rightarrow> x | None \<Rightarrow> JUndefined)"

text \<open>A value whose conversion to a primitive does not throw: no object that hides
  \<^verbatim>\<open>toString\<close> is reached through arrays.\<close>

fun plain :: "jsval \<Rightarrow> bool" where
  "plain (JObj kvs) = (''toString'' \<notin> fst ` set kvs)"
| "plain (JArr xs) = (\<forall>x \<in> set xs. nullish x \<or> plain x)"
| "plain _ = True"

fun is_object :: "jsval \<Rightarrow> bool" where
  "is_object (JObj kvs) = True"
| "is_object (JArr xs) = True"
| "is_object _ = False"

text \<open>An item of a group's \<^verbatim>\<open>it\<close> list, the \<^verbatim>\<open>it\<close> of a root item, a root item, a layer.\<close>

definition wf_child :: "jsval \<Rightarrow> bool" where
  "wf_child c = (\<not> nullish c \<and> plain (field c ''ty''))"

definition wf_children :: "jsval \<Rightarrow> bool" where
  "wf_children it = (case it of JArr cs \<Rightarrow> list_all wf_child cs | _ \<Rightarrow> nullish it)"

definition wf_shape :: "jsval \<Rightarrow> bool" where
  "wf_shape s = (\<not> nullish s \<and> plain (field s ''ty'') \<and> wf_children (field s ''it''))"

definition wf_layer :: "jsval \<Rightarrow> bool" where
  "wf_layer l =
     (is_object l \<and> plain (field l ''ddd'') \<and> plain (field l ''sr'') \<and>
      (case field l ''shapes'' of JArr xs \<Rightarrow> list_all wf_shape xs | _ \<Rightarrow> True))"

text \<open>
  A document that \<^verbatim>\<open>validate\<close> can walk: an object (or array) whose compared fields convert
  to primitives, whose assets are objects, whose layers are well-formed. Any of its
  fields may be missing, \<^verbatim>\<open>null\<close> or of another type than the format expects.
\<close>

definition well_formed :: "jsval \<Rightarrow> bool" where
  "well_formed d =
     (is_object d \<and> plain (field d ''fr'') \<and> plain (field d ''op'') \<and> plain (field d ''ip'') \<and>
      plain (field d ''w'') \<and> plain (field d ''h'') \<and> plain (field d ''ddd'') \<and>
      (case field d ''assets'' of JArr xs \<Rightarrow> list_all is_object xs | _ \<Rightarrow> True) \<and>
      (case field d ''layers'' of JArr xs \<Rightarrow> list_all wf_layer xs | _ \<Rightarrow> True))"

text \<open>What the four type tests of \<^verbatim>\<open>checkItems\<close> push for one item.\<close>

definition item_flags :: "host \<Rightarrow> jsval \<Rightarrow> diag list option" where
  "item_flags h item = do {
     rp \<leftarrow> ty_is h item ''rp'';
     sr \<leftarrow> ty_is h item ''sr'';
     mm \<leftarrow> ty_is h item ''mm'';
     gs \<leftarrow> ty_is h item ''gs'';
     Some (push_if rp (Diag ''Composition should not include any Repeaters'' None)
       @ push_if sr (Diag ''Composition should not include any Star Shapes'' None)
       @ push_if mm (Diag ''Composition should not include any Merge Paths'' None)
       @ push_if gs (Diag ''Composition should not include any Gradient Strokes'' None))
   }"

text \<open>The four types \<^verbatim>\<open>checkItems\<close> tests an item for, each with the message it pushes.\<close>

definition shape_messages :: "(string \<times> string) list" where
  "shape_messages =
     [(''rp'', ''Composition should not include any Repeaters''),
      (''sr'', ''Composition should not include any Star Shapes''),
      (''mm'', ''Composition should not include any Merge Paths''),
      (''gs'', ''Composition should not include any Gradient Strokes'')]"

section \<open>Reading a list of diagnostics\<close>

text \<open>\<open>under m errs\<close>: the diagnostics nested in the entries of \<open>errs\<close> whose message is \<open>m\<close>.\<close>

definition under :: "string \<Rightarrow> diag list \<Rightarrow> diag list" where
  "under m errs =
     concat (map (\<lambda>e. if message e = m then (case details e of Some ds \<Rightarrow> ds | None \<Rightarrow> []) else []) errs)"

text \<open>What a list returned by \<^verbatim>\<open>validate\<close> holds for the items of the \<^verbatim>\<open>shapes\<close> lists of the layers,
  and for the items of the \<^verbatim>\<open>it\<close> lists of those.\<close>

definition shapes_findings :: "diag list \<Rightarrow> diag list" where
  "shapes_findings errs =
     under ''Composition shapes should not have errors'' (under ''Layer '' (under ''Layers have errors'' errs))"

definition items_findings :: "diag list \<Rightarrow> diag list" where
  "items_findings errs = under ''Composition items should not have errors'' (shapes_findings errs)"

section \<open>Replacing what lies below a group's items\<close>

text \<open>\<open>set_it x item\<close> is \<open>item\<close> with \<open>x\<close> as its \<^verbatim>\<open>it\<close>; \<open>below_children g item\<close> gives every
  item \<open>c\<close> of the \<^verbatim>\<open>it\<close> list of \<open>item\<close> the new \<^verbatim>\<open>it\<close> value \<open>g c\<close>.\<close>

definition set_it :: "jsval \<Rightarrow> jsval \<Rightarrow> jsval" where
  "set_it x item = (case item of JObj kvs \<Rightarrow> JObj (AList.update ''it'' x kvs) | _ \<Rightarrow> item)"

definition below_children :: "(jsval \<Rightarrow> jsval) \<Rightarrow> jsval \<Rightarrow> jsval" where
  "below_children g item =
     (case item of
        JObj kvs \<Rightarrow>
          (case map_of kvs ''it'' of
             Some (JArr cs) \<Rightarrow> JObj (AList.update ''it'' (JArr (map (\<lambda>c. set_it (g c) c) cs)) kvs)
           | _ \<Rightarrow> item)
      | _ \<Rightarrow> item)"

section \<open>The properties \<^verbatim>\<open>generate\<close> leaves\<close>

definition stripped :: "(string \<times> jsval) list \<Rightarrow> (string \<times> jsval) list" where
  "stripped kvs =
     AList.delete ''chars'' (AList.delete ''fonts'' (AList.delete ''markers''
       (AList.update ''tgs'' (JNum (Fin 1)) kvs)))"

section \<open>Example documents and an example host\<close>

text \<open>
  A host for the examples. It answers as a browser does on the few strings the examples
  hand to \<^verbatim>\<open>JSON.parse\<close> and \<^verbatim>\<open>new URL\<close>, serves an empty object at the one URL, and gives every
  document 200 bytes of compressed JSON (the examples are all far below 64 KB). No example
  converts between numbers and strings.
\<close>

definition quoted :: "string \<Rightarrow> string" where
  "quoted s = CHR 0x22 # s @ [CHR 0x22]"

definition example_host :: host where
  "example_host = \<lparr>
     JSON_parse = (\<lambda>s. if s = ''false'' then Some (JBool False)
                       else if s = ''{}'' then Some (JObj [])
                       else if s = quoted ''http://example.com/a.json''
                         then Some (JStr ''http://example.com/a.json'')
                       else if s = ''['' @ quoted ''http://example.com/a.json'' @ '']''
                         then Some (JArr [JStr ''http://example.com/a.json''])
                       else None),
     new_URL = (\<lambda>s. if s = ''http://example.com/a.json'' then Some s else None),
     fetchPath = (\<lambda>u. Resolved (JObj [])),
     gzip_size = (\<lambda>v. 200),
     StringToNumber = (\<lambda>s. NaN),
     NumberToString = (\<lambda>n. ''NaN'') \<rparr>"

text \<open>The same host, but where the compressed document has 70000 bytes.\<close>

definition heavy_host :: host where
  "heavy_host = example_host \<lparr> gzip_size := (\<lambda>v. 70000) \<rparr>"

text \<open>A document with the given top-level numbers, 512 by 512, and the given further
  properties.\<close>

definition sticker :: "rat \<Rightarrow> rat \<Rightarrow> rat \<Rightarrow> (string \<times> jsval) list \<Rightarrow> jsval" where
  "sticker fr ip op others =
     JObj ([(''fr'', JNum (Fin fr)), (''ip'', JNum (Fin ip)), (''op'', JNum (Fin op)),
            (''w'', JNum (Fin 512)), (''h'', JNum (Fin 512))] @ others)"

text \<open>A shape layer without shapes, a solid layer, and a shape layer whose one group holds
  a repeater that holds a star.\<close>

definition shape_layer :: jsval where
  "shape_layer = JObj [(''ty'', JNum (Fin 4)), (''shapes'', JArr [])]"

definition solid_layer :: jsval where
  "solid_layer = JObj [(''ty'', JNum (Fin 1))]"

definition nested_layer :: jsval where
  "nested_layer =
     JObj [(''ty'', JNum (Fin 4)),
           (''shapes'', JArr [JObj [(''ty'', JStr ''gr''),
              (''it'', JArr [JObj [(''ty'', JStr ''rp''),
                 (''it'', JArr [JObj [(''ty'', JStr ''sr'')]])]])]])]"

section \<open>Rounding: the facts the duration check needs\<close>

lemma ilog2_bounds:
  assumes "0 < a"
  shows "2 powi (ilog2 a) \<le> a \<and> a < 2 powi (ilog2 a + 1)"
proof (cases "1 \<le> a")
  case True
  define n where "n = \<lfloor>a\<rfloor>"
  have n1: "1 \<le> n" using True by (simp add: n_def le_floor_iff)
  then have n0: "0 < n" by simp
  have b1: "1 \<le> bitlen n" using n0 by (simp add: bitlen_alt_def)
  from bitlen_bounds [OF n0] have lo: "2 ^ nat (bitlen n - 1) \<le> n" and hi: "n < 2 ^ nat (bitlen n)"
    by auto
  have e: "ilog2 a = bitlen n - 1" using True by (simp add: ilog2_def n_def)
  have "(2::rat) powi (bitlen n - 1) = 2 ^ nat (bitlen n - 1)"
    using b1 by (simp add: power_int_nonneg_exp)
  also have "\<dots> = of_int (2 ^ nat (bitlen n - 1))" by simp
  also have "\<dots> \<le> of_int n" using lo by (simp only: of_int_le_iff)
  also have "\<dots> \<le> a" unfolding n_def by linarith
  finally have A: "2 powi (ilog2 a) \<le> a" by (simp add: e)
  have "n + 1 \<le> 2 ^ nat (bitlen n)" using hi by simp
  then have "(of_int (n + 1) :: rat) \<le> of_int (2 ^ nat (bitlen n))" by (simp only: of_int_le_iff)
  moreover have "a < of_int (n + 1)" unfolding n_def by linarith
  ultimately have "a < of_int (2 ^ nat (bitlen n))" by simp
  also have "\<dots> = (2::rat) powi (bitlen n)" using b1 by (simp add: power_int_nonneg_exp)
  finally have B: "a < 2 powi (ilog2 a + 1)" by (simp add: e)
  from A B show ?thesis ..
next
  case False
  then have a1: "a < 1" by simp
  define k where "k = \<lceil>1 / a\<rceil> - 1"
  have "1 < 1 / a" using assms a1 by (simp add: field_simps)
  then have "1 < \<lceil>1 / a\<rceil>" by (simp add: less_ceiling_iff)
  then have k0: "0 < k" by (simp add: k_def)
  have b1: "1 \<le> bitlen k" using k0 by (simp add: bitlen_alt_def)
  from bitlen_bounds [OF k0] have lo: "2 ^ nat (bitlen k - 1) \<le> k" and hi: "k < 2 ^ nat (bitlen k)"
    by auto
  have e: "ilog2 a = - bitlen k" using False by (simp add: ilog2_def k_def)
  have "1 / a \<le> of_int (k + 1)" unfolding k_def by simp
  also have "(of_int (k + 1) :: rat) \<le> of_int (2 ^ nat (bitlen k))" using hi by (simp only: of_int_le_iff)
  also have "\<dots> = (2::rat) powi (bitlen k)" using b1 by (simp add: power_int_nonneg_exp)
  finally have "1 / a \<le> 2 powi (bitlen k)" .
  then have A: "2 powi (- bitlen k) \<le> a"
    using assms by (simp add: power_int_minus field_simps)
  have "(2::rat) powi (bitlen k - 1) = of_int (2 ^ nat (bitlen k - 1))"
    using b1 by (simp add: power_int_nonneg_exp)
  also have "(of_int (2 ^ nat (bitlen k - 1)) :: rat) \<le> of_int k" using lo by (simp only: of_int_le_iff)
  also have "of_int k < 1 / a" unfolding k_def by linarith
  finally have "2 powi (bitlen k - 1) < 1 / a" .
  then have "a < 1 / 2 powi (bitlen k - 1)"
    using assms by (simp add: field_simps)
  also have "\<dots> = 2 powi (- bitlen k + 1)"
    by (simp add: power_int_minus_divide [symmetric])
  finally have B: "a < 2 powi (- bitlen k + 1)" .
  from A B show ?thesis by (simp add: e)
qed


lemma round_half_even_of_int [simp]: "round_half_even (of_int k) = k"
  by (simp add: round_half_even_def)

lemma round_half_even_le: "m \<le> of_int k \<Longrightarrow> round_half_even m \<le> k"
proof -
  assume a: "m \<le> of_int k"
  show ?thesis
  proof (cases "m = of_int k")
    case True
    then show ?thesis by simp
  next
    case False
    with a have "m < of_int k" by simp
    then have "\<lfloor>m\<rfloor> < k" by (simp add: floor_less_iff)
    then show ?thesis by (simp add: round_half_even_def Let_def)
  qed
qed

lemma round_half_even_ge: "of_int k \<le> m \<Longrightarrow> k \<le> round_half_even m"
proof -
  assume "of_int k \<le> m"
  then have "k \<le> \<lfloor>m\<rfloor>" by (simp add: le_floor_iff)
  then show ?thesis by (simp add: round_half_even_def Let_def)
qed

lemma ilog2_less: assumes "0 < a" "a < 2 powi k" shows "ilog2 a < k"
proof (rule ccontr)
  assume "\<not> ilog2 a < k"
  then have "k \<le> ilog2 a" by simp
  then have "(2::rat) powi k \<le> 2 powi (ilog2 a)" by (simp add: power_int_increasing)
  also have "\<dots> \<le> a" using ilog2_bounds [OF assms(1)] by simp
  finally show False using assms(2) by simp
qed

lemma ilog2_ge: assumes "0 < a" "2 powi k \<le> a" shows "k \<le> ilog2 a"
proof (rule ccontr)
  assume "\<not> k \<le> ilog2 a"
  then have "ilog2 a + 1 \<le> k" by simp
  then have "(2::rat) powi (ilog2 a + 1) \<le> 2 powi k" by (simp add: power_int_increasing)
  moreover have "a < 2 powi (ilog2 a + 1)" using ilog2_bounds [OF assms(1)] by simp
  ultimately show False using assms(2) by simp
qed


lemma round64_nonneg_cases:
  assumes "0 \<le> x"
  obtains n q where "0 < q" "0 \<le> n" "q = 2 powi (max (ilog2 x) (- 1022) - 52)"
    "n = round_half_even (x / q)"
    "round64 x = (if 2 ^ 1024 \<le> of_int n * q then PosInf else if n = 0 then Fin 0 else Fin (of_int n * q))"
proof -
  define q :: rat where "q = 2 powi (max (ilog2 x) (- 1022) - 52)"
  define n where "n = round_half_even (x / q)"
  have q0: "0 < q" by (simp add: q_def)
  have "(of_int 0 :: rat) \<le> x / q" using assms q0 by simp
  then have n0: "0 \<le> n" unfolding n_def by (rule round_half_even_ge)
  have "round64 x = (if 2 ^ 1024 \<le> of_int n * q then PosInf else if n = 0 then Fin 0 else Fin (of_int n * q))"
    using assms by (simp add: round64_def Let_def q_def n_def)
  with q0 n0 show ?thesis using that q_def n_def by blast
qed

lemma round64_neg_not_gt:
  assumes "x < 0" and that: "0 \<le> c"
  shows "\<not> js_gt (round64 x) (Fin c)"
proof -
  define q :: rat where "q = 2 powi (max (ilog2 \<bar>x\<bar>) (- 1022) - 52)"
  define n where "n = round_half_even (\<bar>x\<bar> / q)"
  have q0: "0 < q" by (simp add: q_def)
  have "(of_int 0 :: rat) \<le> \<bar>x\<bar> / q" using q0 by simp
  then have n0: "0 \<le> n" unfolding n_def by (rule round_half_even_ge)
  have nq: "0 \<le> of_int n * q" using n0 q0 by simp
  have "round64 x = (if 2 ^ 1024 \<le> of_int n * q then NegInf else if n = 0 then NegZero else Fin (- (of_int n * q)))"
    using assms by (simp add: round64_def Let_def q_def n_def)
  then show ?thesis using nq that by (auto simp: js_gt_def)
qed

lemma round64_le_3:
  assumes "x \<le> 3"
  shows "\<not> js_gt (round64 x) (Fin 3)"
proof (cases "x < 0")
  case True
  then show ?thesis by (simp add: round64_neg_not_gt)
next
  case False
  then have x0: "0 \<le> x" by simp
  then obtain n q where q0: "0 < q" and n0: "0 \<le> n"
    and q: "q = 2 powi (max (ilog2 x) (- 1022) - 52)"
    and n: "n = round_half_even (x / q)"
    and r: "round64 x = (if 2 ^ 1024 \<le> of_int n * q then PosInf else if n = 0 then Fin 0 else Fin (of_int n * q))"
    by (rule round64_nonneg_cases)
  have le3: "of_int n * q \<le> 3"
  proof (cases "x = 0")
    case True
    have "round_half_even 0 = 0" using round_half_even_of_int [of 0] by simp
    with True show ?thesis by (simp add: n)
  next
    case False
    with x0 have xp: "0 < x" by simp
    have "x < 2 powi 2" using assms by simp
    with xp have "ilog2 x < 2" by (rule ilog2_less)
    then have e: "max (ilog2 x) (- 1022) \<le> 1" by simp
    define d where "d = nat (52 - max (ilog2 x) (- 1022))"
    have qd: "q = 1 / 2 ^ d"
      using e by (simp add: q d_def power_int_def field_simps)
    have "x / q \<le> 3 / q" using assms q0 by (intro divide_right_mono) simp_all
    also have "3 / q = of_int (3 * 2 ^ d)" by (simp add: qd)
    finally have "n \<le> 3 * 2 ^ d" unfolding n by (rule round_half_even_le)
    then have "(of_int n :: rat) \<le> of_int (3 * 2 ^ d)" by (simp only: of_int_le_iff)
    then have "of_int n * q \<le> of_int (3 * 2 ^ d) * q" using q0 by (simp add: mult_right_mono)
    also have "\<dots> = 3" by (simp add: qd)
    finally show ?thesis .
  qed
  have "\<not> (2 ^ 1024 \<le> of_int n * q)"
  proof
    assume "2 ^ 1024 \<le> of_int n * q"
    with le3 have "(2::rat) ^ 1024 \<le> 3" by simp
    moreover have "(2::rat) ^ 2 \<le> 2 ^ 1024" by (rule power_increasing) simp_all
    ultimately show False by simp
  qed
  then show ?thesis using le3 by (simp add: r js_gt_def)
qed


lemma round64_gt_3:
  assumes "3 + 1 / 2 ^ 51 \<le> x"
  shows "js_gt (round64 x) (Fin 3)"
proof -
  have x3: "3 < x"
  proof -
    have "(0::rat) < 1 / 2 ^ 51" by simp
    with assms show ?thesis by linarith
  qed
  then have xp: "0 < x" and x0: "0 \<le> x" by simp_all
  from x0 obtain n q where q0: "0 < q" and n0: "0 \<le> n"
    and q: "q = 2 powi (max (ilog2 x) (- 1022) - 52)"
    and n: "n = round_half_even (x / q)"
    and r: "round64 x = (if 2 ^ 1024 \<le> of_int n * q then PosInf else if n = 0 then Fin 0 else Fin (of_int n * q))"
    by (rule round64_nonneg_cases)
  have "2 powi 1 \<le> x" using x3 by simp
  with xp have e1: "1 \<le> ilog2 x" by (rule ilog2_ge)
  then have emax: "max (ilog2 x) (- 1022) = ilog2 x" by simp
  have gt3: "3 < of_int n * q"
  proof (cases "ilog2 x = 1")
    case True
    then have qd: "q = 1 / 2 ^ 51" by (simp add: q emax power_int_minus_divide)
    have "(of_int (3 * 2 ^ 51 + 1) :: rat) = (3 + 1 / 2 ^ 51) / q" by (simp add: qd field_simps)
    also have "\<dots> \<le> x / q" using assms q0 by (intro divide_right_mono) simp_all
    finally have "3 * 2 ^ 51 + 1 \<le> n" unfolding n by (rule round_half_even_ge)
    then have le: "(of_int (3 * 2 ^ 51 + 1) :: rat) \<le> of_int n" by (simp only: of_int_le_iff)
    have "3 < of_int (3 * 2 ^ 51 + 1) * q" by (simp add: qd field_simps)
    also have "of_int (3 * 2 ^ 51 + 1) * q \<le> of_int n * q"
      using le q0 by (intro mult_right_mono) simp_all
    finally show ?thesis .
  next
    case False
    with e1 have e2: "2 \<le> ilog2 x" by simp
    have lo: "2 powi (ilog2 x) \<le> x" using ilog2_bounds [OF xp] by simp
    have qq: "2 powi (ilog2 x) = 2 ^ 52 * q"
      by (simp add: q emax power_int_diff)
    have "(of_int (2 ^ 52) :: rat) = 2 powi (ilog2 x) / q" using q0 by (simp add: qq)
    also have "\<dots> \<le> x / q" using lo q0 by (intro divide_right_mono) simp_all
    finally have "2 ^ 52 \<le> n" unfolding n by (rule round_half_even_ge)
    then have le: "(of_int (2 ^ 52) :: rat) \<le> of_int n" by (simp only: of_int_le_iff)
    have "(3::rat) < 2 powi 2" by simp
    also have "(2::rat) powi 2 \<le> 2 powi (ilog2 x)" using e2 by (intro power_int_increasing) simp_all
    also have "2 powi (ilog2 x) = of_int (2 ^ 52) * q" by (simp add: qq)
    also have "of_int (2 ^ 52) * q \<le> of_int n * q"
      using le q0 by (intro mult_right_mono) simp_all
    finally show ?thesis .
  qed
  then have "n \<noteq> 0" by auto
  then show ?thesis using gt3 by (simp add: r js_gt_def)
qed

lemma round64_of_int:
  assumes "k \<noteq> 0" "\<bar>k\<bar> \<le> 2 ^ 53"
  shows "round64 (of_int k) = Fin (of_int k)"
proof -
  define m where "m = \<bar>k\<bar>"
  define a :: rat where "a = of_int m"
  have m1: "1 \<le> m" using assms(1) by (simp add: m_def)
  have mle: "m \<le> 2 ^ 53" using assms(2) by (simp add: m_def)
  have a_abs: "\<bar>of_int k :: rat\<bar> = a" by (simp add: a_def m_def)
  have a1: "1 \<le> a" using m1 by (simp add: a_def)
  then have ap: "0 < a" by simp
  have ale: "a \<le> 2 ^ 53"
  proof -
    have "(of_int m :: rat) \<le> of_int (2 ^ 53)" using mle by (simp only: of_int_le_iff)
    then show ?thesis by (simp add: a_def)
  qed
  have "2 powi 0 \<le> a" using a1 by simp
  with ap have e0: "0 \<le> ilog2 a" by (rule ilog2_ge)
  have "a < 2 powi 54" using ale by simp
  with ap have e54: "ilog2 a < 54" by (rule ilog2_less)
  define q :: rat where "q = 2 powi (max (ilog2 a) (- 1022) - 52)"
  define n where "n = round_half_even (a / q)"
  have q0: "0 < q" by (simp add: q_def)
  have emax: "max (ilog2 a) (- 1022) = ilog2 a" using e0 by simp
  have nq: "of_int n * q = a"
  proof (cases "ilog2 a \<le> 52")
    case True
    define d where "d = nat (52 - ilog2 a)"
    have qd: "q = 1 / 2 ^ d" using True by (simp add: q_def emax d_def power_int_def field_simps)
    have "a / q = of_int (m * 2 ^ d)" by (simp add: qd a_def)
    then have "n = m * 2 ^ d" unfolding n_def by (simp only: round_half_even_of_int)
    then show ?thesis by (simp add: qd a_def)
  next
    case False
    with e54 have e: "ilog2 a = 53" by simp
    have "2 powi 53 \<le> a" using ilog2_bounds [OF ap] by (simp add: e)
    with ale have a53: "a = 2 ^ 53" by simp
    have qd: "q = 2" by (simp add: q_def emax e)
    have "a / q = of_int (2 ^ 52)" by (simp add: qd a53)
    then have "n = 2 ^ 52" unfolding n_def by (simp only: round_half_even_of_int)
    then show ?thesis by (simp add: qd a53)
  qed
  have n0: "n \<noteq> 0" using nq ap by auto
  have no: "\<not> (2 ^ 1024 \<le> a)"
  proof
    assume "2 ^ 1024 \<le> a"
    with ale have "(2::rat) ^ 1024 \<le> 2 ^ 53" by simp
    then show False by simp
  qed
  have "round64 (of_int k) = Fin (if (of_int k :: rat) < 0 then - a else a)"
    using n0 no nq by (simp add: round64_def Let_def a_abs q_def [symmetric] n_def [symmetric])
  also have "(if (of_int k :: rat) < 0 then - a else a) = of_int k"
    by (simp add: a_def m_def)
  finally show ?thesis .
qed


lemma js_sub_ints:
  assumes "\<bar>a - b\<bar> \<le> 2 ^ 53"
  shows "js_sub (Fin (of_int a)) (Fin (of_int b)) = Fin (of_int (a - b))"
proof (cases "a = b")
  case True
  then show ?thesis by (simp add: js_sub_def signed_zero_def)
next
  case False
  then have "a - b \<noteq> 0" by simp
  from round64_of_int [OF this assms] False show ?thesis
    by (simp add: js_sub_def)
qed

lemma duration_exact:
  fixes a b c :: int
  assumes "\<bar>a - b\<bar> \<le> 2 ^ 53" "c \<noteq> 0" "\<bar>c\<bar> \<le> 2 ^ 51"
  shows "js_gt (js_div (js_sub (Fin (of_int a)) (Fin (of_int b))) (Fin (of_int c))) (Fin 3)
     \<longleftrightarrow> 3 < (of_int (a - b) :: rat) / of_int c"
proof (cases "a = b")
  case True
  then show ?thesis using assms(2)
    by (simp add: js_sub_ints js_div_def signed_zero_def js_gt_def)
next
  case False
  define x :: rat where "x = of_int (a - b) / of_int c"
  have d: "js_div (js_sub (Fin (of_int a)) (Fin (of_int b))) (Fin (of_int c)) = round64 x"
    using False assms(1,2) by (simp add: js_sub_ints js_div_def x_def)
  show ?thesis
  proof (cases "3 < x")
    case False
    then have "x \<le> 3" by simp
    then have "\<not> js_gt (round64 x) (Fin 3)" by (rule round64_le_3)
    with False show ?thesis by (simp add: d x_def)
  next
    case True
    define k where "k = a - b - 3 * c"
    have xk: "x - 3 = of_int k / of_int c"
      using assms(2) by (simp add: x_def k_def field_simps)
    have pos: "0 < (of_int k :: rat) / of_int c" using True xk by simp
    then have "(of_int k :: rat) / of_int c = \<bar>of_int k / of_int c\<bar>"
      by (simp only: abs_of_pos)
    also have "\<dots> = of_int \<bar>k\<bar> / of_int \<bar>c\<bar>" by (simp only: abs_divide of_int_abs)
    finally have eq: "x - 3 = of_int \<bar>k\<bar> / of_int \<bar>c\<bar>" using xk by simp
    have "k \<noteq> 0" using pos by auto
    then have "1 \<le> \<bar>k\<bar>" by simp
    then have "(of_int 1 :: rat) \<le> of_int \<bar>k\<bar>" by (simp only: of_int_le_iff)
    then have k1: "(1::rat) \<le> of_int \<bar>k\<bar>" by simp
    have c0: "(0::rat) < of_int \<bar>c\<bar>" using assms(2) by simp
    have "(of_int \<bar>c\<bar> :: rat) \<le> of_int (2 ^ 51)" using assms(3) by (simp only: of_int_le_iff)
    then have c51: "(of_int \<bar>c\<bar> :: rat) \<le> 2 ^ 51" by simp
    have "(1::rat) / 2 ^ 51 \<le> of_int \<bar>k\<bar> / of_int \<bar>c\<bar>"
      using k1 c0 c51 by (intro frac_le) simp_all
    then have "3 + 1 / 2 ^ 51 \<le> x" using eq by linarith
    then have "js_gt (round64 x) (Fin 3)" by (rule round64_gt_3)
    with True show ?thesis by (simp add: d x_def)
  qed
qed

section \<open>Facts about the engine\<close>

subsection \<open>Where the checks return\<close>

lemma andalso_defined: "a \<noteq> None \<Longrightarrow> b \<noteq> None \<Longrightarrow> andalso a b \<noteq> None"
  by (auto simp: andalso_def)

lemma orelse_defined: "a \<noteq> None \<Longrightarrow> b \<noteq> None \<Longrightarrow> orelse a b \<noteq> None"
  by (auto simp: orelse_def)

lemma get_prop_field: "\<not> nullish v \<Longrightarrow> get_prop v k = Some (field v k)"
  by (cases v) (auto simp: field_def split: option.splits)

lemma plain_ToString:
  "plain v \<Longrightarrow> ToString h v \<noteq> None"
  "\<forall>x \<in> set xs. nullish x \<or> plain x \<Longrightarrow> join h xs \<noteq> None"
proof (induction h v and h xs rule: ToString_join.induct)
  case (8 h)
  then show ?case by simp
next
  case (9 h x xs)
  have s: "(if nullish x then Some [] else ToString h x) \<noteq> None"
    using 9(1) 9(3) by auto
  then obtain a where a: "(if nullish x then Some [] else ToString h x) = Some a" by blast
  show ?case
  proof (cases "xs = []")
    case True
    with a show ?thesis by simp
  next
    case False
    have "join h xs \<noteq> None" using 9(2) [OF a False] 9(3) by simp
    with a False show ?thesis by auto
  qed
qed simp_all

lemma plain_ToPrimitive: "plain v \<Longrightarrow> ToPrimitive h v \<noteq> None"
  using plain_ToString(1) [of v h] by (cases v) (auto simp: ToPrimitive_def)

lemma plain_loose_eq_num: "plain v \<Longrightarrow> loose_eq_num h v n \<noteq> None"
  using plain_ToPrimitive [of v h] by (auto simp: loose_eq_num_def)

lemma plain_loose_eq_str: "plain v \<Longrightarrow> loose_eq_str h v s \<noteq> None"
  using plain_ToPrimitive [of v h] by (auto simp: loose_eq_str_def)

lemma plain_ToNumber: "plain v \<Longrightarrow> ToNumber h v \<noteq> None"
  using plain_ToPrimitive [of v h] by (auto simp: ToNumber_def)

lemma field_ne_defined: "\<not> nullish ob \<Longrightarrow> plain (field ob k) \<Longrightarrow> field_ne h ob k n \<noteq> None"
  using plain_loose_eq_num [of "field ob k" h n] by (auto simp: field_ne_def get_prop_field)

lemma field_not_null_defined: "\<not> nullish ob \<Longrightarrow> field_not_null ob k \<noteq> None"
  by (simp add: field_not_null_def get_prop_field)

lemma field_is_defined: "\<not> nullish ob \<Longrightarrow> field_is ob k n \<noteq> None"
  by (simp add: field_is_def get_prop_field)

lemma field_is_true_defined: "\<not> nullish ob \<Longrightarrow> field_is_true ob k \<noteq> None"
  by (simp add: field_is_true_def get_prop_field)

lemma is_object_not_nullish: "is_object v \<Longrightarrow> \<not> nullish v"
  by (cases v) auto

lemma map_of_absent: "k \<notin> fst ` set kvs \<Longrightarrow> map_of kvs k = None"
  by (simp add: map_of_eq_None_iff)

lemma map_of_present: "k \<in> fst ` set kvs \<Longrightarrow> \<exists>v. map_of kvs k = Some v"
  using map_of_eq_None_iff [of kvs k] by auto

lemma has_list_object: "is_object ob \<Longrightarrow> has_list ob k = Some (isArray (field ob k))"
proof (cases ob)
  case (JObj kvs)
  show ?thesis
  proof (cases "k \<in> fst ` set kvs")
    case True
    then obtain v where "map_of kvs k = Some v" using map_of_present by fastforce
    with True JObj show ?thesis
      by (simp add: has_list_def andalso_def field_isArray_def field_def)
  next
    case False
    then have "map_of kvs k = None" by (rule map_of_absent)
    with False JObj show ?thesis
      by (simp add: has_list_def andalso_def field_isArray_def field_def)
  qed
qed (auto simp: has_list_def andalso_def field_isArray_def field_def)

lemma ty_is_defined: "wf_child c \<Longrightarrow> ty_is h c s \<noteq> None"
  using plain_loose_eq_str [of "field c ''ty''" h s]
  by (auto simp: ty_is_def wf_child_def get_prop_field)

lemma forEach_defined: "(\<And>x. x \<in> set xs \<Longrightarrow> f x \<noteq> None) \<Longrightarrow> forEach f xs \<noteq> None"
proof (induction xs)
  case Nil
  then show ?case by simp
next
  case (Cons x xs)
  have "f x \<noteq> None" using Cons.prems by simp
  moreover have "forEach f xs \<noteq> None" using Cons by simp
  ultimately show ?case by auto
qed

lemma checkItems_leaf:
  "checkItems h items False =
     (if nullish items then Some []
      else case items of JArr xs \<Rightarrow> forEach (item_flags h) xs | _ \<Rightarrow> None)"
  by (cases items; subst checkItems.simps; simp add: item_flags_def [abs_def])

lemma checkItems_root:
  "checkItems h items True =
     (if nullish items then Some []
      else case items of
        JArr xs \<Rightarrow>
          forEach (\<lambda>item. do {
            flags \<leftarrow> item_flags h item;
            it \<leftarrow> get_prop item ''it'';
            itemErrors \<leftarrow> checkItems h it False;
            Some (flags @ push_if (itemErrors \<noteq> [])
              (Diag ''Composition items should not have errors'' (Some itemErrors)))
          }) xs
      | _ \<Rightarrow> None)"
  by (cases items; subst checkItems.simps; simp add: item_flags_def [abs_def])

lemma item_flags_defined: "wf_child c \<Longrightarrow> item_flags h c \<noteq> None"
  using ty_is_defined [of c h "''rp''"] ty_is_defined [of c h "''sr''"]
    ty_is_defined [of c h "''mm''"] ty_is_defined [of c h "''gs''"]
  by (auto simp: item_flags_def split: bind_splits)

lemma checkItems_children: "wf_children it \<Longrightarrow> checkItems h it False \<noteq> None"
proof (cases it)
  case (JArr cs)
  assume "wf_children it"
  with JArr have wf: "\<And>c. c \<in> set cs \<Longrightarrow> wf_child c" by (simp add: wf_children_def list_all_iff)
  have "forEach (item_flags h) cs \<noteq> None"
    by (rule forEach_defined) (use wf item_flags_defined in blast)
  with JArr show ?thesis by (simp add: checkItems_leaf)
qed (auto simp: wf_children_def checkItems_leaf)


lemma wf_shape_child: "wf_shape s \<Longrightarrow> wf_child s"
  by (simp add: wf_shape_def wf_child_def)

lemma checkItems_shapes:
  assumes "list_all wf_shape xs"
  shows "checkItems h (JArr xs) True \<noteq> None"
proof -
  have "forEach (\<lambda>item. do {
            flags \<leftarrow> item_flags h item;
            it \<leftarrow> get_prop item ''it'';
            itemErrors \<leftarrow> checkItems h it False;
            Some (flags @ push_if (itemErrors \<noteq> [])
              (Diag ''Composition items should not have errors'' (Some itemErrors)))
          }) xs \<noteq> None"
  proof (rule forEach_defined)
    fix x assume "x \<in> set xs"
    with assms have wf: "wf_shape x" by (simp add: list_all_iff)
    then have "item_flags h x \<noteq> None" by (simp add: item_flags_defined wf_shape_child)
    moreover from wf have "get_prop x ''it'' = Some (field x ''it'')"
      by (simp add: wf_shape_def get_prop_field)
    moreover from wf have "checkItems h (field x ''it'') False \<noteq> None"
      by (simp add: wf_shape_def checkItems_children)
    ultimately show "do {
            flags \<leftarrow> item_flags h x;
            it \<leftarrow> get_prop x ''it'';
            itemErrors \<leftarrow> checkItems h it False;
            Some (flags @ push_if (itemErrors \<noteq> [])
              (Diag ''Composition items should not have errors'' (Some itemErrors)))
          } \<noteq> None"
      by auto
  qed
  then show ?thesis by (simp add: checkItems_root)
qed

lemma field_not_null_eq: "\<not> nullish ob \<Longrightarrow> field_not_null ob k = Some (\<not> nullish (field ob k))"
  by (simp add: field_not_null_def get_prop_field)

lemma field_is_eq: "\<not> nullish ob \<Longrightarrow> field_is ob k n = Some (strict_eq_num (field ob k) n)"
  by (simp add: field_is_def get_prop_field)

lemma field_is_true_eq: "\<not> nullish ob \<Longrightarrow> field_is_true ob k = Some (field ob k = JBool True)"
  by (simp add: field_is_true_def get_prop_field)

lemma checkLayer_defined:
  assumes "wf_layer l"
  shows "checkLayer h l \<noteq> None"
proof -
  from assms have ob: "is_object l" and nn: "\<not> nullish l"
    by (simp_all add: wf_layer_def is_object_not_nullish)
  have "andalso (field_not_null l ''ddd'') (field_ne h l ''ddd'' (Fin 0)) \<noteq> None"
    using assms nn by (intro andalso_defined field_not_null_defined field_ne_defined) (simp_all add: wf_layer_def)
  then obtain b1 where 1: "andalso (field_not_null l ''ddd'') (field_ne h l ''ddd'' (Fin 0)) = Some b1"
    by blast
  have "andalso (field_not_null l ''sr'') (field_ne h l ''sr'' (Fin 1)) \<noteq> None"
    using assms nn by (intro andalso_defined field_not_null_defined field_ne_defined) (simp_all add: wf_layer_def)
  then obtain b2 where 2: "andalso (field_not_null l ''sr'') (field_ne h l ''sr'' (Fin 1)) = Some b2"
    by blast
  have 5: "has_list l ''shapes'' = Some (isArray (field l ''shapes''))"
    using ob by (rule has_list_object)
  have 7: "get_prop l ''shapes'' = Some (field l ''shapes'')" using nn by (rule get_prop_field)
  show ?thesis
  proof (cases "isArray (field l ''shapes'')")
    case True
    then obtain xs where xs: "field l ''shapes'' = JArr xs" by (cases "field l ''shapes''") auto
    with assms have "list_all wf_shape xs" by (simp add: wf_layer_def)
    then have "checkItems h (JArr xs) True \<noteq> None" by (rule checkItems_shapes)
    then obtain r where "checkItems h (JArr xs) True = Some r" by blast
    then show ?thesis
      unfolding checkLayer_def 1 2 5 7
      by (simp add: xs nn field_not_null_eq field_is_eq field_is_true_eq orelse_def)
  next
    case False
    then show ?thesis
      unfolding checkLayer_def 1 2 5 7
      by (simp add: nn field_not_null_eq field_is_eq field_is_true_eq orelse_def)
  qed
qed

lemma checkLayer_list: "checkLayer h (JArr xs) = Some []"
  by (simp add: checkLayer_def andalso_def orelse_def field_not_null_def field_ne_def field_is_def
      field_is_true_def has_list_def push_if_def)


lemma has_list_True: "has_list ob k = Some True \<Longrightarrow> \<exists>xs. get_prop ob k = Some (JArr xs)"
  by (cases ob) (auto simp: has_list_def andalso_def field_isArray_def
      split: bind_splits if_splits option.splits elim: isArray.elims)

lemma assetsLoop_empty: "assetsLoop h xs i = Some r \<Longrightarrow> r = []"
proof (induction xs arbitrary: i r)
  case Nil
  then show ?case by simp
next
  case (Cons asset rest)
  show ?case
  proof (cases "has_list asset ''layers'' = Some True")
    case True
    then obtain ys where "get_prop asset ''layers'' = Some (JArr ys)"
      using has_list_True by blast
    with True Cons show ?thesis
      by (auto simp: checkLayer_list split: bind_splits)
  next
    case False
    with Cons show ?thesis by (auto split: bind_splits if_splits)
  qed
qed

lemma assetsLoop_defined: "list_all is_object xs \<Longrightarrow> assetsLoop h xs i = Some []"
proof (induction xs arbitrary: i)
  case Nil
  then show ?case by simp
next
  case (Cons asset rest)
  then have ob: "is_object asset" and rest: "assetsLoop h rest (Suc i) = Some []" by simp_all
  have hl: "has_list asset ''layers'' = Some (isArray (field asset ''layers''))"
    using ob by (rule has_list_object)
  have gp: "get_prop asset ''layers'' = Some (field asset ''layers'')"
    using ob by (simp add: get_prop_field is_object_not_nullish)
  show ?case
  proof (cases "field asset ''layers''")
    case (JArr ys)
    then show ?thesis by (simp add: hl gp rest checkLayer_list)
  qed (simp_all add: hl rest)
qed

lemma layersLoop_defined: "list_all wf_layer xs \<Longrightarrow> layersLoop h xs acc n \<noteq> None"
proof (induction xs arbitrary: acc n)
  case Nil
  then show ?case by simp
next
  case (Cons layer rest)
  then have "checkLayer h layer \<noteq> None" by (simp add: checkLayer_defined)
  then obtain r where "checkLayer h layer = Some r" by blast
  with Cons show ?case by (simp add: Let_def)
qed

lemma assets_block_defined:
  assumes "is_object d" "case field d ''assets'' of JArr xs \<Rightarrow> list_all is_object xs | _ \<Rightarrow> True"
  shows "assets_block h d = Some []"
proof -
  have hl: "has_list d ''assets'' = Some (isArray (field d ''assets''))"
    using assms(1) by (rule has_list_object)
  have gp: "get_prop d ''assets'' = Some (field d ''assets'')"
    using assms(1) by (simp add: get_prop_field is_object_not_nullish)
  show ?thesis
  proof (cases "field d ''assets''")
    case (JArr xs)
    with assms(2) have "assetsLoop h xs 0 = Some []" by (simp add: assetsLoop_defined)
    with JArr show ?thesis by (simp add: assets_block_def hl gp push_if_def)
  qed (simp_all add: assets_block_def hl)
qed

lemma layers_block_defined:
  assumes "is_object d" "case field d ''layers'' of JArr xs \<Rightarrow> list_all wf_layer xs | _ \<Rightarrow> True"
  shows "layers_block h d \<noteq> None"
proof -
  have hl: "has_list d ''layers'' = Some (isArray (field d ''layers''))"
    using assms(1) by (rule has_list_object)
  have gp: "get_prop d ''layers'' = Some (field d ''layers'')"
    using assms(1) by (simp add: get_prop_field is_object_not_nullish)
  show ?thesis
  proof (cases "field d ''layers''")
    case (JArr xs)
    with assms(2) have "layersLoop h xs [] 0 \<noteq> None" by (simp add: layersLoop_defined)
    then obtain r where "layersLoop h xs [] 0 = Some r" by blast
    with JArr show ?thesis by (cases r) (simp add: layers_block_def hl gp)
  qed (simp_all add: layers_block_def hl)
qed

lemma has_nonempty_list_object:
  "is_object d \<Longrightarrow> has_nonempty_list d k = Some (isArray (field d k) \<and> elems (field d k) \<noteq> [])"
  by (auto simp: has_nonempty_list_def has_list_object andalso_def get_prop_field is_object_not_nullish)

lemma has_prop_object: "is_object d \<Longrightarrow> has_prop k d \<noteq> None"
  by (cases d) auto

lemma generate_object: "is_object d \<Longrightarrow> generate h d \<noteq> None"
  by (cases d) (auto simp: generate_def Let_def)

lemma longer_than_3_defined:
  assumes "\<not> nullish d" "plain (field d ''op'')" "plain (field d ''ip'')" "plain (field d ''fr'')"
  shows "longer_than_3 h d \<noteq> None"
proof -
  obtain a b c where "ToNumber h (field d ''op'') = Some a" "ToNumber h (field d ''ip'') = Some b"
    "ToNumber h (field d ''fr'') = Some c"
    using assms(2-4) plain_ToNumber by fastforce
  then show ?thesis using assms(1) by (simp add: longer_than_3_def get_prop_field)
qed

lemma layers_block_missing:
  "has_list d ''layers'' = Some False \<Longrightarrow> layers_block h d = Some [Diag ''Should have atleast 1 layer'' None]"
  by (simp add: layers_block_def)


subsection \<open>Evaluation\<close>

lemma ToNumber_num [simp]: "ToNumber h (JNum n) = Some n"
  by (simp add: ToNumber_def ToPrimitive_def)

lemma loose_eq_num_num [simp]: "loose_eq_num h (JNum m) n = Some (js_eq m n)"
  by (simp add: loose_eq_num_def ToPrimitive_def)

lemma loose_eq_num_undefined [simp]: "loose_eq_num h JUndefined n = Some False"
  by (simp add: loose_eq_num_def ToPrimitive_def)

lemma loose_eq_str_str [simp]: "loose_eq_str h (JStr t) s = Some (t = s)"
  by (simp add: loose_eq_str_def ToPrimitive_def)

lemma loose_eq_str_undefined [simp]: "loose_eq_str h JUndefined s = Some False"
  by (simp add: loose_eq_str_def ToPrimitive_def)

lemma js_eq_Fin [simp]: "js_eq (Fin a) (Fin b) = (a = b)"
  by (simp add: js_eq_def)

lemmas field_defs = field_ne_def field_not_null_def field_is_def field_is_true_def
  field_isArray_def has_list_def has_nonempty_list_def andalso_def orelse_def push_if_def

lemma e1: "checkLayer h nested_layer = Some [Diag ''Composition shapes should not have errors''
             (Some
               [Diag ''Composition items should not have errors''
                 (Some
                   [Diag ''Composition should not include any Repeaters''
                     None])])]"
  by (simp add: checkLayer_def nested_layer_def field_defs checkItems_root checkItems_leaf item_flags_def ty_is_def)

lemma e2: "checkLayer h shape_layer = Some []"
  by (simp add: checkLayer_def shape_layer_def field_defs checkItems_root checkItems_leaf item_flags_def ty_is_def)

lemma e3: "checkLayer h solid_layer = Some [Diag ''Composition should not include any Solids'' None]"
  by (simp add: checkLayer_def solid_layer_def field_defs checkItems_root checkItems_leaf item_flags_def ty_is_def)

subsection \<open>The shape of the result\<close>

lemma set_push_if: "set (push_if c e) = (if c then {e} else {})"
  by (simp add: push_if_def)

lemma validate_SomeE:
  assumes "validate h d = Some (errs, d')"
  obtains fr long dims ddd assets layers fonts chars sz where
    "andalso (field_ne h d ''fr'' (Fin 30)) (field_ne h d ''fr'' (Fin 60)) = Some fr"
    "longer_than_3 h d = Some long"
    "orelse (field_ne h d ''w'' (Fin 512)) (field_ne h d ''h'' (Fin 512)) = Some dims"
    "andalso (field_not_null d ''ddd'') (field_ne h d ''ddd'' (Fin 0)) = Some ddd"
    "assets_block h d = Some assets"
    "layers_block h d = Some layers"
    "has_nonempty_list d ''fonts'' = Some fonts"
    "has_nonempty_list d ''chars'' = Some chars"
    "generate h d = Some (sz, d')"
    "errs = push_if fr (Diag ''Frame rate must be exactly 30 or 60'' None)
       @ push_if long (Diag ''Should not be longer than 3 seconds'' None)
       @ push_if dims (Diag ''Dimensions should be exactly 512pxx512px'' None)
       @ push_if ddd (Diag ''Should not have 3D layers'' None)
       @ assets
       @ layers
       @ push_if fonts (Diag ''Should not have fonts'' None)
       @ push_if chars (Diag ''Should not have glyph chars'' None)
       @ push_if (65536 < sz) (Diag ''Total sticker size should not exceed 64 KB'' None)"
  using assms unfolding validate_def
  by (auto split: bind_splits prod.splits)

lemma assets_block_msgs:
  "assets_block h d = Some ds \<Longrightarrow> x \<in> set ds \<Longrightarrow> message x = ''Assets must not have errors''"
  unfolding assets_block_def
  by (auto split: bind_splits if_splits simp: set_push_if)

lemma layers_block_msgs:
  "layers_block h d = Some ds \<Longrightarrow> x \<in> set ds \<Longrightarrow>
     message x = ''Layers have errors'' \<or> message x = ''Should have atleast 1 layer''"
  unfolding layers_block_def
  by (auto split: bind_splits if_splits prod.splits)

text \<open>A diagnostic of the document level sits in the list exactly when its own check
  pushed it: the other checks push other messages.\<close>

lemma validate_top_level:
  assumes "validate h d = Some (errs, d')"
  obtains fr long dims ddd fonts chars sz where
    "andalso (field_ne h d ''fr'' (Fin 30)) (field_ne h d ''fr'' (Fin 60)) = Some fr"
    "longer_than_3 h d = Some long"
    "generate h d = Some (sz, d')"
    "Diag ''Frame rate must be exactly 30 or 60'' None \<in> set errs \<longleftrightarrow> fr"
    "Diag ''Should not be longer than 3 seconds'' None \<in> set errs \<longleftrightarrow> long"
    "Diag ''Total sticker size should not exceed 64 KB'' None \<in> set errs \<longleftrightarrow> 65536 < sz"
proof -
  from assms obtain fr long dims ddd assets layers fonts chars sz where
    f: "andalso (field_ne h d ''fr'' (Fin 30)) (field_ne h d ''fr'' (Fin 60)) = Some fr"
    and lg: "longer_than_3 h d = Some long"
    and a: "assets_block h d = Some assets" and l: "layers_block h d = Some layers"
    and g: "generate h d = Some (sz, d')"
    and e: "errs = push_if fr (Diag ''Frame rate must be exactly 30 or 60'' None)
       @ push_if long (Diag ''Should not be longer than 3 seconds'' None)
       @ push_if dims (Diag ''Dimensions should be exactly 512pxx512px'' None)
       @ push_if ddd (Diag ''Should not have 3D layers'' None)
       @ assets
       @ layers
       @ push_if fonts (Diag ''Should not have fonts'' None)
       @ push_if chars (Diag ''Should not have glyph chars'' None)
       @ push_if (65536 < sz) (Diag ''Total sticker size should not exceed 64 KB'' None)"
    by (rule validate_SomeE)
  have na: "\<And>m. m \<noteq> ''Assets must not have errors'' \<Longrightarrow> Diag m None \<notin> set assets"
    using assets_block_msgs [OF a] by fastforce
  have nl: "\<And>m. m \<noteq> ''Layers have errors'' \<Longrightarrow> m \<noteq> ''Should have atleast 1 layer'' \<Longrightarrow> Diag m None \<notin> set layers"
    using layers_block_msgs [OF l] by fastforce
  have 1: "Diag ''Frame rate must be exactly 30 or 60'' None \<in> set errs \<longleftrightarrow> fr"
    using na nl by (simp add: e set_push_if)
  have 2: "Diag ''Should not be longer than 3 seconds'' None \<in> set errs \<longleftrightarrow> long"
    using na nl by (simp add: e set_push_if)
  have 3: "Diag ''Total sticker size should not exceed 64 KB'' None \<in> set errs \<longleftrightarrow> 65536 < sz"
    using na nl by (simp add: e set_push_if)
  from f lg g 1 2 3 show ?thesis by (rule that)
qed

lemma generate_size: "generate h d = Some (sz, d') \<Longrightarrow> sz = gzip_size h d'"
  unfolding generate_def by (auto split: jsval.splits simp: Let_def)

lemma validate_not_nullish: "validate h d = Some r \<Longrightarrow> \<not> nullish d"
  by (cases d) (auto simp: validate_def field_ne_def andalso_def)


lemma longer_than_3_ints:
  fixes a b c :: int
  assumes "get_prop d ''op'' = Some (JNum (Fin (of_int a)))"
    "get_prop d ''ip'' = Some (JNum (Fin (of_int b)))"
    "get_prop d ''fr'' = Some (JNum (Fin (of_int c)))"
    "\<bar>a - b\<bar> \<le> 2 ^ 53" "c \<noteq> 0" "\<bar>c\<bar> \<le> 2 ^ 51"
  shows "longer_than_3 h d = Some (3 < (of_int (a - b) :: rat) / of_int c)"
  using assms(1-3) duration_exact [OF assms(4-6)] by (simp add: longer_than_3_def)

lemmas eval_defs = validate_def field_defs assets_block_def layers_block_def generate_def
  example_host_def heavy_host_def sticker_def

lemma long_30_0_90: "longer_than_3 h (sticker 30 0 90 others) = Some False"
  using longer_than_3_ints [of "sticker 30 0 90 others" 90 0 30 h] by (simp add: sticker_def)

lemma long_25_0_50: "longer_than_3 h (sticker 25 0 50 others) = Some False"
  using longer_than_3_ints [of "sticker 25 0 50 others" 50 0 25 h] by (simp add: sticker_def)

lemma ev30: "validate example_host (sticker 30 0 90 [(''layers'', JArr [shape_layer])]) =
   Some ([], sticker 30 0 90 [(''layers'', JArr [shape_layer]), (''tgs'', JNum (Fin 1))])"
  unfolding validate_def long_30_0_90
  by (simp add: eval_defs e2)

lemma ev25: "validate example_host (sticker 25 0 50 [(''layers'', JArr [shape_layer])]) =
   Some ([Diag ''Frame rate must be exactly 30 or 60'' None], sticker 25 0 50 [(''layers'', JArr [shape_layer]), (''tgs'', JNum (Fin 1))])"
  unfolding validate_def long_25_0_50
  by (simp add: eval_defs e2)


subsection \<open>The validation of \<^verbatim>\<open>src/TGSKit.ts\<close>\<close>

lemma TGSKit_validate_SomeE:
  assumes "TGSKit_validate h d = Some errs"
  obtains long dims ddd markers assets layers where
    "longer_than_3 h d = Some long"
    "has_prop ''markers'' d = Some markers"
    "TGSKit_assets_block h d = Some assets"
    "TGSKit_layers_block h d = Some layers"
    "errs = push_if long ''Longer than 3 seconds''
       @ push_if dims ''Dimensions should be exactly 512pxx512px''
       @ push_if ddd ''Must not have 3D layers''
       @ push_if markers ''Must not have markers''
       @ assets
       @ layers"
  using assms unfolding TGSKit_validate_def
  by (auto split: bind_splits)

lemma forEach_concat_dropped: "forEach (\<lambda>x. concat_dropped (f x)) xs = Some r \<Longrightarrow> r = []"
  by (induction xs arbitrary: r) (auto simp: concat_dropped_def split: bind_splits)

lemma TGSKit_assets_block_empty: "TGSKit_assets_block h d = Some r \<Longrightarrow> r = []"
proof -
  assume a: "TGSKit_assets_block h d = Some r"
  have "forEach (\<lambda>asset. do { layers \<leftarrow> get_prop asset ''layers''; concat_dropped (TGSKit_checkLayer h layers) }) xs = Some r \<Longrightarrow> r = []" for xs r
    by (induction xs arbitrary: r) (auto simp: concat_dropped_def split: bind_splits)
  with a show ?thesis
    unfolding TGSKit_assets_block_def by (auto split: bind_splits if_splits)
qed

lemma TGSKit_layers_block_msgs:
  "TGSKit_layers_block h d = Some r \<Longrightarrow> r = [] \<or> r = [''Must have atleast 1 layer'']"
  unfolding TGSKit_layers_block_def
  by (auto split: bind_splits if_splits dest: forEach_concat_dropped)

subsection \<open>Evaluated examples\<close>





lemma ev_heavy: "validate heavy_host (sticker 30 0 90 [(''layers'', JArr [shape_layer])]) =
   Some ([Diag ''Total sticker size should not exceed 64 KB'' None],
         sticker 30 0 90 [(''layers'', JArr [shape_layer]), (''tgs'', JNum (Fin 1))])"
  unfolding validate_def long_30_0_90
  by (simp add: eval_defs e2)

text \<open>A document without \<^verbatim>\<open>layers\<close> whose asset has no \<^verbatim>\<open>layers\<close>, and a document whose layer
  has a number for \<^verbatim>\<open>shapes\<close>.\<close>

lemma wf_examples:
  "well_formed (sticker 30 0 90 [(''assets'', JArr [JObj [(''id'', JStr ''image_0'')]])])"
  "well_formed (sticker 30 0 90 [(''layers'', JArr [JObj [(''ty'', JNum (Fin 4)), (''shapes'', JNum (Fin 7))]])])"
  by (simp_all add: well_formed_def sticker_def field_def wf_layer_def)

text \<open>On a well-formed document every check of \<^verbatim>\<open>validate\<close> returns, and no asset is reported.\<close>

lemma validate_well_formed:
  assumes "well_formed d"
  obtains fr long dims ddd layers and sz :: nat and d' where
    "layers_block h d = Some layers"
    "validate h d = Some (push_if fr (Diag ''Frame rate must be exactly 30 or 60'' None)
       @ push_if long (Diag ''Should not be longer than 3 seconds'' None)
       @ push_if dims (Diag ''Dimensions should be exactly 512pxx512px'' None)
       @ push_if ddd (Diag ''Should not have 3D layers'' None)
       @ []
       @ layers
       @ push_if (isArray (field d ''fonts'') \<and> elems (field d ''fonts'') \<noteq> []) (Diag ''Should not have fonts'' None)
       @ push_if (isArray (field d ''chars'') \<and> elems (field d ''chars'') \<noteq> []) (Diag ''Should not have glyph chars'' None)
       @ push_if (65536 < sz) (Diag ''Total sticker size should not exceed 64 KB'' None),
       d')"
proof -
  from assms have ob: "is_object d" by (simp add: well_formed_def)
  then have nn: "\<not> nullish d" by (rule is_object_not_nullish)
  have "andalso (field_ne h d ''fr'' (Fin 30)) (field_ne h d ''fr'' (Fin 60)) \<noteq> None"
    using assms nn by (intro andalso_defined field_ne_defined) (simp_all add: well_formed_def)
  then obtain fr where 1: "andalso (field_ne h d ''fr'' (Fin 30)) (field_ne h d ''fr'' (Fin 60)) = Some fr"
    by blast
  have "longer_than_3 h d \<noteq> None"
    using assms nn by (intro longer_than_3_defined) (simp_all add: well_formed_def)
  then obtain long where 2: "longer_than_3 h d = Some long" by blast
  have "orelse (field_ne h d ''w'' (Fin 512)) (field_ne h d ''h'' (Fin 512)) \<noteq> None"
    using assms nn by (intro orelse_defined field_ne_defined) (simp_all add: well_formed_def)
  then obtain dims where 3: "orelse (field_ne h d ''w'' (Fin 512)) (field_ne h d ''h'' (Fin 512)) = Some dims"
    by blast
  have "andalso (field_not_null d ''ddd'') (field_ne h d ''ddd'' (Fin 0)) \<noteq> None"
    using assms nn by (intro andalso_defined field_not_null_defined field_ne_defined) (simp_all add: well_formed_def)
  then obtain ddd where 4: "andalso (field_not_null d ''ddd'') (field_ne h d ''ddd'' (Fin 0)) = Some ddd"
    by blast
  obtain markers where 5: "has_prop ''markers'' d = Some markers"
    using has_prop_object [OF ob] by blast
  have 6: "assets_block h d = Some []"
    using assms ob by (intro assets_block_defined) (simp_all add: well_formed_def)
  have "layers_block h d \<noteq> None"
    using assms ob by (intro layers_block_defined) (simp_all add: well_formed_def)
  then obtain layers where 7: "layers_block h d = Some layers" by blast
  obtain sz d' where 8: "generate h d = Some (sz, d')"
    using generate_object [OF ob] by fastforce
  have v: "validate h d = Some (push_if fr (Diag ''Frame rate must be exactly 30 or 60'' None)
       @ push_if long (Diag ''Should not be longer than 3 seconds'' None)
       @ push_if dims (Diag ''Dimensions should be exactly 512pxx512px'' None)
       @ push_if ddd (Diag ''Should not have 3D layers'' None)
       @ []
       @ layers
       @ push_if (isArray (field d ''fonts'') \<and> elems (field d ''fonts'') \<noteq> []) (Diag ''Should not have fonts'' None)
       @ push_if (isArray (field d ''chars'') \<and> elems (field d ''chars'') \<noteq> []) (Diag ''Should not have glyph chars'' None)
       @ push_if (65536 < sz) (Diag ''Total sticker size should not exceed 64 KB'' None),
       d')"
    unfolding validate_def 1 2 3 4 5 6 7 8 by (simp add: has_nonempty_list_object ob)
  from 7 v show ?thesis by (rule that)
qed

lemma wf_stickers:
  "well_formed (sticker 30 0 90 [(''layers'', JArr [shape_layer])])"
  "well_formed (sticker 25 0 50 [(''layers'', JArr [shape_layer])])"
  by (simp_all add: well_formed_def sticker_def field_def wf_layer_def shape_layer_def)

subsection \<open>Further facts\<close>

lemma get_prop_set_it: "k \<noteq> ''it'' \<Longrightarrow> get_prop (set_it x c) k = get_prop c k"
  by (cases c) (auto simp: set_it_def update_conv')

lemma item_flags_set_it: "item_flags h (set_it x c) = item_flags h c"
  by (simp add: item_flags_def ty_is_def get_prop_set_it)

lemma forEach_map: "forEach f (map g xs) = forEach (\<lambda>x. f (g x)) xs"
  by (induction xs) auto

lemma checkItems_leaf_set_it:
  "checkItems h (JArr (map (\<lambda>c. set_it (g c) c) cs)) False = checkItems h (JArr cs) False"
  by (simp add: checkItems_leaf forEach_map item_flags_set_it)

lemma get_prop_below_children_ty: "get_prop (below_children g item) ''ty'' = get_prop item ''ty''"
  by (cases item) (auto simp: below_children_def update_conv' split: option.splits jsval.splits)

lemma item_flags_below_children: "item_flags h (below_children g item) = item_flags h item"
  by (simp add: item_flags_def ty_is_def get_prop_below_children_ty)

lemma checkItems_below_children_it:
  "do { it \<leftarrow> get_prop (below_children g item) ''it''; checkItems h it False } =
   do { it \<leftarrow> get_prop item ''it''; checkItems h it False }"
  by (cases item) (auto simp: below_children_def update_conv' checkItems_leaf_set_it
      split: option.splits jsval.splits)

lemma TGSKit_checkItems_leaf:
  "TGSKit_checkItems h items False =
     (if nullish items then Some []
      else case items of
        JArr xs \<Rightarrow>
          forEach (\<lambda>item. do {
            rp \<leftarrow> ty_is h item ''rp'';
            sr \<leftarrow> ty_is h item ''sr'';
            mm \<leftarrow> ty_is h item ''mm'';
            gs \<leftarrow> ty_is h item ''gs'';
            Some (push_if rp ''Composition should not include any Repeaters''
              @ push_if sr ''Composition should not include any Star Shapes''
              @ push_if mm ''Composition should not include any Merge Paths''
              @ push_if gs ''Composition should not include any Gradient Strokes'')
          }) xs
      | _ \<Rightarrow> None)"
  by (cases items; subst TGSKit_checkItems.simps; simp)

lemma TGSKit_checkItems_root:
  "TGSKit_checkItems h items True =
     (if nullish items then Some []
      else case items of
        JArr xs \<Rightarrow>
          forEach (\<lambda>item. do {
            rp \<leftarrow> ty_is h item ''rp'';
            sr \<leftarrow> ty_is h item ''sr'';
            mm \<leftarrow> ty_is h item ''mm'';
            gs \<leftarrow> ty_is h item ''gs'';
            it \<leftarrow> get_prop item ''it'';
            nested \<leftarrow> concat_dropped (TGSKit_checkItems h it False);
            Some (push_if rp ''Composition should not include any Repeaters''
              @ push_if sr ''Composition should not include any Star Shapes''
              @ push_if mm ''Composition should not include any Merge Paths''
              @ push_if gs ''Composition should not include any Gradient Strokes''
              @ nested)
          }) xs
      | _ \<Rightarrow> None)"
  by (cases items; subst TGSKit_checkItems.simps; simp)

lemma TGSKit_solid: "TGSKit_checkLayer h solid_layer = Some [''Composition should not include any Solids'']"
  by (simp add: TGSKit_checkLayer_def solid_layer_def field_defs concat_dropped_def TGSKit_checkItems_root)

lemma TGSKit_nested: "TGSKit_checkLayer h nested_layer = Some []"
  by (simp add: TGSKit_checkLayer_def nested_layer_def field_defs concat_dropped_def
      TGSKit_checkItems_root TGSKit_checkItems_leaf ty_is_def)

lemmas TGSKit_eval_defs = TGSKit_validate_def TGSKit_assets_block_def TGSKit_layers_block_def
  concat_dropped_def field_defs sticker_def

lemma assets_block_empty: "assets_block h d = Some r \<Longrightarrow> r = []"
  unfolding assets_block_def
  by (auto split: bind_splits if_splits dest: assetsLoop_empty simp: push_if_def)

lemma layersLoop_keeps:
  "layersLoop h xs acc n = Some (final, p) \<Longrightarrow> set acc \<subseteq> set final"
proof (induction xs arbitrary: acc n)
  case Nil
  then show ?case by simp
next
  case (Cons layer rest)
  then show ?case by (auto simp: Let_def split: bind_splits) fastforce
qed

lemma layersLoop_finds:
  "layersLoop h xs acc n = Some (final, p) \<Longrightarrow> l \<in> set xs \<Longrightarrow> checkLayer h l = Some fs \<Longrightarrow>
     fs \<noteq> [] \<Longrightarrow> Diag ''Layer '' (Some fs) \<in> set final"
proof (induction xs arbitrary: acc n)
  case Nil
  then show ?case by simp
next
  case (Cons layer rest)
  show ?case
  proof (cases "l = layer")
    case True
    with Cons.prems have
      "layersLoop h rest (acc @ [Diag ''Layer '' (Some fs)])
         (if acc @ [Diag ''Layer '' (Some fs)] \<noteq> [] then n + 1 else n) = Some (final, p)"
      by (simp add: Let_def push_if_def)
    from layersLoop_keeps [OF this] show ?thesis by simp
  next
    case False
    with Cons.prems have "l \<in> set rest" by simp
    moreover from Cons.prems obtain acc' n' where "layersLoop h rest acc' n' = Some (final, p)"
      by (auto simp: Let_def split: bind_splits)
    ultimately show ?thesis using Cons.IH Cons.prems(3,4) by blast
  qed
qed

lemma layersLoop_counts:
  "layersLoop h xs acc n = Some (final, p) \<Longrightarrow> n \<le> p \<and> (xs \<noteq> [] \<and> final \<noteq> [] \<longrightarrow> n < p)"
proof (induction xs arbitrary: acc n)
  case Nil
  then show ?case by simp
next
  case (Cons layer rest)
  from Cons.prems obtain fs where fs: "checkLayer h layer = Some fs" by (auto split: bind_splits)
  define acc' where "acc' = acc @ push_if (fs \<noteq> []) (Diag ''Layer '' (Some fs))"
  define n' where "n' = (if acc' \<noteq> [] then n + 1 else n)"
  from Cons.prems fs have r: "layersLoop h rest acc' n' = Some (final, p)"
    by (simp add: Let_def acc'_def n'_def)
  from Cons.IH [OF r] have ih: "n' \<le> p" "rest \<noteq> [] \<and> final \<noteq> [] \<longrightarrow> n' < p" by simp_all
  have nn: "n \<le> n'" by (simp add: n'_def)
  show ?case
  proof (cases "rest = []")
    case True
    with r have "final = acc'" "p = n'" by simp_all
    then show ?thesis by (simp add: n'_def)
  next
    case False
    with ih nn show ?thesis by auto
  qed
qed

lemma key_present: "k \<in> fst ` set kvs \<longleftrightarrow> map_of kvs k \<noteq> None"
  by (simp add: map_of_eq_None_iff)

lemma get_prop_agree: "map_of kvs1 k = map_of kvs2 k \<Longrightarrow> get_prop (JObj kvs1) k = get_prop (JObj kvs2) k"
  by simp

lemma has_prop_agree: "map_of kvs1 k = map_of kvs2 k \<Longrightarrow> has_prop k (JObj kvs1) = has_prop k (JObj kvs2)"
  by (simp add: key_present)

lemmas read_defs = field_ne_def field_not_null_def field_isArray_def has_list_def
  has_nonempty_list_def longer_than_3_def assets_block_def layers_block_def

lemma checks_agree:
  assumes "\<And>k. k \<in> {''fr'', ''op'', ''ip'', ''w'', ''h'', ''ddd'', ''assets'', ''layers''} \<Longrightarrow>
    map_of kvs1 k = map_of kvs2 k"
  shows "andalso (field_ne h (JObj kvs1) ''fr'' (Fin 30)) (field_ne h (JObj kvs1) ''fr'' (Fin 60)) =
         andalso (field_ne h (JObj kvs2) ''fr'' (Fin 30)) (field_ne h (JObj kvs2) ''fr'' (Fin 60))"
    "longer_than_3 h (JObj kvs1) = longer_than_3 h (JObj kvs2)"
    "orelse (field_ne h (JObj kvs1) ''w'' (Fin 512)) (field_ne h (JObj kvs1) ''h'' (Fin 512)) =
     orelse (field_ne h (JObj kvs2) ''w'' (Fin 512)) (field_ne h (JObj kvs2) ''h'' (Fin 512))"
    "andalso (field_not_null (JObj kvs1) ''ddd'') (field_ne h (JObj kvs1) ''ddd'' (Fin 0)) =
     andalso (field_not_null (JObj kvs2) ''ddd'') (field_ne h (JObj kvs2) ''ddd'' (Fin 0))"
    "assets_block h (JObj kvs1) = assets_block h (JObj kvs2)"
    "layers_block h (JObj kvs1) = layers_block h (JObj kvs2)"
proof -
  have g: "get_prop (JObj kvs1) ''fr'' = get_prop (JObj kvs2) ''fr''"
    "get_prop (JObj kvs1) ''op'' = get_prop (JObj kvs2) ''op''"
    "get_prop (JObj kvs1) ''ip'' = get_prop (JObj kvs2) ''ip''"
    "get_prop (JObj kvs1) ''w'' = get_prop (JObj kvs2) ''w''"
    "get_prop (JObj kvs1) ''h'' = get_prop (JObj kvs2) ''h''"
    "get_prop (JObj kvs1) ''ddd'' = get_prop (JObj kvs2) ''ddd''"
    "get_prop (JObj kvs1) ''assets'' = get_prop (JObj kvs2) ''assets''"
    "get_prop (JObj kvs1) ''layers'' = get_prop (JObj kvs2) ''layers''"
    "has_prop ''assets'' (JObj kvs1) = has_prop ''assets'' (JObj kvs2)"
    "has_prop ''layers'' (JObj kvs1) = has_prop ''layers'' (JObj kvs2)"
    by (rule get_prop_agree has_prop_agree, rule assms, simp)+
  show "andalso (field_ne h (JObj kvs1) ''fr'' (Fin 30)) (field_ne h (JObj kvs1) ''fr'' (Fin 60)) =
         andalso (field_ne h (JObj kvs2) ''fr'' (Fin 30)) (field_ne h (JObj kvs2) ''fr'' (Fin 60))"
    "longer_than_3 h (JObj kvs1) = longer_than_3 h (JObj kvs2)"
    "orelse (field_ne h (JObj kvs1) ''w'' (Fin 512)) (field_ne h (JObj kvs1) ''h'' (Fin 512)) =
     orelse (field_ne h (JObj kvs2) ''w'' (Fin 512)) (field_ne h (JObj kvs2) ''h'' (Fin 512))"
    "andalso (field_not_null (JObj kvs1) ''ddd'') (field_ne h (JObj kvs1) ''ddd'' (Fin 0)) =
     andalso (field_not_null (JObj kvs2) ''ddd'') (field_ne h (JObj kvs2) ''ddd'' (Fin 0))"
    "assets_block h (JObj kvs1) = assets_block h (JObj kvs2)"
    "layers_block h (JObj kvs1) = layers_block h (JObj kvs2)"
    unfolding read_defs g by (rule refl)+
qed

lemma nonempty_list_agree:
  assumes "map_of kvs1 k = map_of kvs2 k"
  shows "has_nonempty_list (JObj kvs1) k = has_nonempty_list (JObj kvs2) k"
  unfolding read_defs get_prop_agree [OF assms] has_prop_agree [OF assms] by (rule refl)

lemma validate_agree:
  assumes "\<And>k. k \<noteq> ''markers'' \<Longrightarrow> map_of kvs1 k = map_of kvs2 k"
    and "generate h (JObj kvs1) = generate h (JObj kvs2)"
  shows "validate h (JObj kvs1) = validate h (JObj kvs2)"
proof -
  have a: "\<And>k. k \<in> {''fr'', ''op'', ''ip'', ''w'', ''h'', ''ddd'', ''assets'', ''layers''} \<Longrightarrow>
    map_of kvs1 k = map_of kvs2 k"
    using assms(1) by auto
  have f: "has_nonempty_list (JObj kvs1) ''fonts'' = has_nonempty_list (JObj kvs2) ''fonts''"
    "has_nonempty_list (JObj kvs1) ''chars'' = has_nonempty_list (JObj kvs2) ''chars''"
    by (rule nonempty_list_agree, rule assms(1), simp)+
  note c = checks_agree [OF a, of h]
  show ?thesis
    by (simp only: validate_def c f assms(2)) simp
qed

lemma generate_obj:
  "generate h (JObj kvs) = Some (gzip_size h (JObj (stripped kvs)), JObj (stripped kvs))"
  by (simp add: generate_def stripped_def Let_def)

lemma keys_delete: "fst ` set (AList.delete k al) = fst ` set al - {k}"
  by (induction al) auto

lemma stripped_keys: "fst ` set (stripped kvs) = (insert ''tgs'' (fst ` set kvs)) - {''markers'', ''fonts'', ''chars''}"
  by (auto simp: stripped_def keys_delete dom_update)

lemma stripped_reads:
  assumes "k \<in> {''fr'', ''op'', ''ip'', ''w'', ''h'', ''ddd'', ''assets'', ''layers''}"
  shows "map_of (stripped kvs) k = map_of kvs k"
proof -
  from assms have "k \<noteq> ''chars''" "k \<noteq> ''fonts''" "k \<noteq> ''markers''" "k \<noteq> ''tgs''" by auto
  then show ?thesis by (simp add: stripped_def update_conv')
qed

lemma stripped_idem: "stripped (stripped kvs) = stripped kvs"
proof -
  have "map_of (stripped kvs) ''tgs'' = Some (JNum (Fin 1))"
    by (simp add: stripped_def update_conv')
  then have u: "AList.update ''tgs'' (JNum (Fin 1)) (stripped kvs) = stripped kvs"
    by (rule update_triv)
  have d: "AList.delete ''markers'' (stripped kvs) = stripped kvs"
    "AList.delete ''fonts'' (stripped kvs) = stripped kvs"
    "AList.delete ''chars'' (stripped kvs) = stripped kvs"
    by (rule delete_id, simp add: stripped_keys)+
  show ?thesis
    by (subst stripped_def) (simp only: u d)
qed

lemma stripped_no_list:
  "has_nonempty_list (JObj (stripped kvs)) ''fonts'' = Some False"
  "has_nonempty_list (JObj (stripped kvs)) ''chars'' = Some False"
  by (simp_all add: has_nonempty_list_def has_list_def andalso_def stripped_keys)

lemma filter_push_if:
  "filter P (push_if c e) = (if P e then push_if c e else [])"
  by (simp add: push_if_def)

lemma layers_block_kept:
  assumes "layers_block h d = Some layers"
  shows "filter (\<lambda>e. message e \<noteq> ''Should not have fonts'' \<and> message e \<noteq> ''Should not have glyph chars'') layers = layers"
proof -
  have "\<forall>x \<in> set layers. message x \<noteq> ''Should not have fonts'' \<and> message x \<noteq> ''Should not have glyph chars''"
    using layers_block_msgs [OF assms] by fastforce
  then show ?thesis by (simp add: filter_id_conv)
qed

lemma ev_chars:
  "validate example_host (sticker 30 0 90 [(''layers'', JArr [shape_layer]),
       (''chars'', JArr [JObj [(''ch'', JStr ''A'')]])]) =
     Some ([Diag ''Should not have glyph chars'' None],
           sticker 30 0 90 [(''layers'', JArr [shape_layer]), (''tgs'', JNum (Fin 1))])"
  unfolding validate_def long_30_0_90
  by (simp add: eval_defs e2)

lemma ev_tgs:
  "validate example_host (sticker 30 0 90 [(''layers'', JArr [shape_layer]), (''tgs'', JNum (Fin 1))]) =
     Some ([], sticker 30 0 90 [(''layers'', JArr [shape_layer]), (''tgs'', JNum (Fin 1))])"
  unfolding validate_def long_30_0_90
  by (simp add: eval_defs e2)

lemma parseURL_object:
  "new_URL h ''[object Object]'' = None \<Longrightarrow> parseURL h (JObj kvs) = None"
  by (simp add: parseURL_def)

subsection \<open>What is reported of shape items\<close>


lemma set_under: "x \<in> set (under m errs) \<longleftrightarrow> (\<exists>ds. Diag m (Some ds) \<in> set errs \<and> x \<in> set ds)"
proof
  assume "x \<in> set (under m errs)"
  then obtain e where e: "e \<in> set errs" "message e = m"
    and x: "x \<in> set (case details e of Some ds \<Rightarrow> ds | None \<Rightarrow> [])"
    by (auto simp: under_def split: if_splits)
  then obtain ds where "details e = Some ds" "x \<in> set ds" by (cases "details e") auto
  have "e = Diag (message e) (details e)" by simp
  with e \<open>details e = Some ds\<close> have "e = Diag m (Some ds)" by simp
  with e have "Diag m (Some ds) \<in> set errs" by simp
  with \<open>x \<in> set ds\<close> show "\<exists>ds. Diag m (Some ds) \<in> set errs \<and> x \<in> set ds" by blast
next
  assume "\<exists>ds. Diag m (Some ds) \<in> set errs \<and> x \<in> set ds"
  then show "x \<in> set (under m errs)" by (force simp: under_def)
qed

lemma forEach_set:
  "forEach f xs = Some r \<Longrightarrow> e \<in> set r \<longleftrightarrow> (\<exists>x \<in> set xs. \<exists>a. f x = Some a \<and> e \<in> set a)"
proof (induction xs arbitrary: r)
  case Nil
  then show ?case by simp
next
  case (Cons x xs)
  from Cons.prems obtain a b where a: "f x = Some a" and b: "forEach f xs = Some b" and r: "r = a @ b"
    by (auto split: bind_splits)
  from Cons.IH [OF b] show ?case by (auto simp: r a)
qed

lemma forEach_member:
  "forEach f xs = Some r \<Longrightarrow> x \<in> set xs \<Longrightarrow> \<exists>a. f x = Some a \<and> set a \<subseteq> set r"
proof (induction xs arbitrary: r)
  case Nil
  then show ?case by simp
next
  case (Cons y ys)
  from Cons.prems obtain a b where a: "f y = Some a" and b: "forEach f ys = Some b" and r: "r = a @ b"
    by (auto split: bind_splits)
  show ?case
  proof (cases "x = y")
    case True
    then show ?thesis using a r by auto
  next
    case False
    with Cons.prems have "x \<in> set ys" by simp
    from Cons.IH [OF b this] show ?thesis by (auto simp: r)
  qed
qed

lemma layersLoop_checks:
  "layersLoop h xs acc n = Some (final, p) \<Longrightarrow> l \<in> set xs \<Longrightarrow> \<exists>fs. checkLayer h l = Some fs"
proof (induction xs arbitrary: acc n)
  case Nil
  then show ?case by simp
next
  case (Cons layer rest)
  from Cons.prems(1) obtain fs acc' n' where fs: "checkLayer h layer = Some fs"
    and r: "layersLoop h rest acc' n' = Some (final, p)"
    by (auto simp: Let_def split: bind_splits)
  show ?case
  proof (cases "l = layer")
    case True
    with fs show ?thesis by blast
  next
    case False
    with Cons.prems have "l \<in> set rest" by simp
    with Cons.IH [OF r] show ?thesis by blast
  qed
qed


lemma field_JStr_object: "field c k = JStr t \<Longrightarrow> get_prop c k = Some (JStr t)"
  by (cases c) (auto simp: field_def split: option.splits)

lemma field_JArr_object: "field c k = JArr xs \<Longrightarrow> is_object c \<and> get_prop c k = Some (JArr xs)"
  by (cases c) (auto simp: field_def split: option.splits)

lemma ty_is_str: "field c ''ty'' = JStr t \<Longrightarrow> ty_is h c s = Some (t = s)"
  by (simp add: ty_is_def field_JStr_object)

lemma item_flags_set:
  "item_flags h c = Some fl \<Longrightarrow>
     e \<in> set fl \<longleftrightarrow> (\<exists>(t, m) \<in> set shape_messages. ty_is h c t = Some True \<and> e = Diag m None)"
  by (auto simp: item_flags_def shape_messages_def set_push_if split: bind_splits if_splits)

lemma checkItems_leaf_set:
  assumes "checkItems h (JArr cs) False = Some ie"
  shows "e \<in> set ie \<longleftrightarrow>
     (\<exists>c \<in> set cs. \<exists>(t, m) \<in> set shape_messages. ty_is h c t = Some True \<and> e = Diag m None)"
proof -
  from assms have f: "forEach (item_flags h) cs = Some ie" by (simp add: checkItems_leaf)
  have d: "\<exists>fl. item_flags h c = Some fl" if "c \<in> set cs" for c
    using forEach_member [OF f that] by blast
  show ?thesis
    unfolding forEach_set [OF f]
  proof (intro iffI)
    assume "\<exists>x\<in>set cs. \<exists>a. item_flags h x = Some a \<and> e \<in> set a"
    then obtain c fl where c: "c \<in> set cs" "item_flags h c = Some fl" "e \<in> set fl" by blast
    with item_flags_set [OF c(2), of e] show "\<exists>c \<in> set cs. \<exists>(t, m) \<in> set shape_messages. ty_is h c t = Some True \<and> e = Diag m None"
      by blast
  next
    assume "\<exists>c \<in> set cs. \<exists>(t, m) \<in> set shape_messages. ty_is h c t = Some True \<and> e = Diag m None"
    then obtain c where c: "c \<in> set cs" "\<exists>(t, m) \<in> set shape_messages. ty_is h c t = Some True \<and> e = Diag m None"
      by blast
    from d [OF c(1)] obtain fl where fl: "item_flags h c = Some fl" by blast
    with item_flags_set [OF fl, of e] c show "\<exists>x\<in>set cs. \<exists>a. item_flags h x = Some a \<and> e \<in> set a"
      by blast
  qed
qed

lemma checkItems_root_set:
  assumes "checkItems h (JArr ss) True = Some se"
  shows "e \<in> set se \<longleftrightarrow>
     (\<exists>s \<in> set ss.
        (\<exists>(t, m) \<in> set shape_messages. ty_is h s t = Some True \<and> e = Diag m None) \<or>
        (\<exists>ie. checkItems h (field s ''it'') False = Some ie \<and> ie \<noteq> [] \<and>
           e = Diag ''Composition items should not have errors'' (Some ie)))"
proof -
  let ?f = "\<lambda>item. do {
            flags \<leftarrow> item_flags h item;
            it \<leftarrow> get_prop item ''it'';
            itemErrors \<leftarrow> checkItems h it False;
            Some (flags @ push_if (itemErrors \<noteq> [])
              (Diag ''Composition items should not have errors'' (Some itemErrors)))
          }"
  from assms have f: "forEach ?f ss = Some se" by (simp add: checkItems_root)
  have d: "\<exists>fl ie. item_flags h s = Some fl \<and> checkItems h (field s ''it'') False = Some ie \<and>
     ?f s = Some (fl @ push_if (ie \<noteq> []) (Diag ''Composition items should not have errors'' (Some ie)))"
    if "s \<in> set ss" for s
  proof -
    from forEach_member [OF f that] obtain a where a: "?f s = Some a" by blast
    then obtain fl it ie where 1: "item_flags h s = Some fl" "get_prop s ''it'' = Some it"
      "checkItems h it False = Some ie" by (auto split: bind_splits)
    then have "field s ''it'' = it" by (simp add: field_def)
    with 1 show ?thesis by simp
  qed
  show ?thesis
    unfolding forEach_set [OF f]
  proof (intro iffI)
    assume "\<exists>x\<in>set ss. \<exists>a. ?f x = Some a \<and> e \<in> set a"
    then obtain s a where s: "s \<in> set ss" "?f s = Some a" "e \<in> set a" by blast
    from d [OF s(1)] obtain fl ie where 1: "item_flags h s = Some fl"
      "checkItems h (field s ''it'') False = Some ie"
      "?f s = Some (fl @ push_if (ie \<noteq> []) (Diag ''Composition items should not have errors'' (Some ie)))"
      by blast
    with s have "e \<in> set fl \<or> (ie \<noteq> [] \<and> e = Diag ''Composition items should not have errors'' (Some ie))"
      by (auto simp: set_push_if split: if_splits)
    with item_flags_set [OF 1(1), of e] 1(2) s(1)
    show "\<exists>s \<in> set ss.
        (\<exists>(t, m) \<in> set shape_messages. ty_is h s t = Some True \<and> e = Diag m None) \<or>
        (\<exists>ie. checkItems h (field s ''it'') False = Some ie \<and> ie \<noteq> [] \<and>
           e = Diag ''Composition items should not have errors'' (Some ie))"
      by blast
  next
    assume "\<exists>s \<in> set ss.
        (\<exists>(t, m) \<in> set shape_messages. ty_is h s t = Some True \<and> e = Diag m None) \<or>
        (\<exists>ie. checkItems h (field s ''it'') False = Some ie \<and> ie \<noteq> [] \<and>
           e = Diag ''Composition items should not have errors'' (Some ie))"
    then obtain s where s: "s \<in> set ss"
      "(\<exists>(t, m) \<in> set shape_messages. ty_is h s t = Some True \<and> e = Diag m None) \<or>
        (\<exists>ie. checkItems h (field s ''it'') False = Some ie \<and> ie \<noteq> [] \<and>
           e = Diag ''Composition items should not have errors'' (Some ie))"
      by blast
    from d [OF s(1)] obtain fl ie where 1: "item_flags h s = Some fl"
      "checkItems h (field s ''it'') False = Some ie"
      "?f s = Some (fl @ push_if (ie \<noteq> []) (Diag ''Composition items should not have errors'' (Some ie)))"
      by blast
    from s(2) item_flags_set [OF 1(1), of e] 1(2)
    have "e \<in> set (fl @ push_if (ie \<noteq> []) (Diag ''Composition items should not have errors'' (Some ie)))"
      by (auto simp: set_push_if)
    with 1(3) s(1) show "\<exists>x\<in>set ss. \<exists>a. ?f x = Some a \<and> e \<in> set a" by blast
  qed
qed

lemma checkLayer_shapes:
  assumes "checkLayer h layer = Some le" "field layer ''shapes'' = JArr ss"
  shows "\<exists>se. checkItems h (JArr ss) True = Some se \<and>
     (se \<noteq> [] \<longrightarrow> Diag ''Composition shapes should not have errors'' (Some se) \<in> set le)"
proof -
  from assms(2) have ob: "is_object layer" and g: "get_prop layer ''shapes'' = Some (JArr ss)"
    by (simp_all add: field_JArr_object)
  have hl: "has_list layer ''shapes'' = Some True"
    using has_list_object [OF ob] assms(2) by simp
  from assms(1) show ?thesis
    unfolding checkLayer_def hl g
    by (auto simp: set_push_if split: bind_splits)
qed

lemma validate_reports_layer:
  assumes "validate h d = Some (errs, d')" "field d ''layers'' = JArr ls" "l \<in> set ls"
  shows "\<exists>fs. checkLayer h l = Some fs \<and>
    (fs \<noteq> [] \<longrightarrow> (\<exists>ds. Diag ''Layers have errors'' (Some ds) \<in> set errs \<and> Diag ''Layer '' (Some fs) \<in> set ds))"
proof -
  from assms(1) obtain fr long dims ddd assets layers fonts chars and sz :: nat where
    l: "layers_block h d = Some layers"
    and e: "errs = push_if fr (Diag ''Frame rate must be exactly 30 or 60'' None)
       @ push_if long (Diag ''Should not be longer than 3 seconds'' None)
       @ push_if dims (Diag ''Dimensions should be exactly 512pxx512px'' None)
       @ push_if ddd (Diag ''Should not have 3D layers'' None)
       @ assets
       @ layers
       @ push_if fonts (Diag ''Should not have fonts'' None)
       @ push_if chars (Diag ''Should not have glyph chars'' None)
       @ push_if (65536 < sz) (Diag ''Total sticker size should not exceed 64 KB'' None)"
    by (rule validate_SomeE)
  have ob: "is_object d" using assms(2) by (simp add: field_JArr_object)
  then have nn: "\<not> nullish d" by (rule is_object_not_nullish)
  have hl: "has_list d ''layers'' = Some True" using has_list_object [OF ob] assms(2) by simp
  from l obtain final p where lp: "layersLoop h ls [] 0 = Some (final, p)"
    and ly: "layers = replicate p (Diag ''Layers have errors'' (Some final))"
    unfolding layers_block_def hl using assms(2)
    by (auto simp: get_prop_field [OF nn] split: bind_splits)
  obtain fs where fs: "checkLayer h l = Some fs"
    using layersLoop_checks [OF lp assms(3)] by blast
  have "\<exists>ds. Diag ''Layers have errors'' (Some ds) \<in> set errs \<and> Diag ''Layer '' (Some fs) \<in> set ds"
    if "fs \<noteq> []"
  proof -
    have f: "Diag ''Layer '' (Some fs) \<in> set final"
      using lp assms(3) fs that by (rule layersLoop_finds)
    then have "ls \<noteq> [] \<and> final \<noteq> []" using assms(3) by auto
    with layersLoop_counts [OF lp] have "0 < p" by simp
    then have "Diag ''Layers have errors'' (Some final) \<in> set layers" by (simp add: ly)
    then show ?thesis using f by (auto simp: e)
  qed
  with fs show ?thesis by blast
qed


lemma checkItems_root_member:
  assumes "checkItems h (JArr ss) True = Some se" "s \<in> set ss"
  shows "\<exists>ie. checkItems h (field s ''it'') False = Some ie"
proof -
  let ?f = "\<lambda>item. do {
            flags \<leftarrow> item_flags h item;
            it \<leftarrow> get_prop item ''it'';
            itemErrors \<leftarrow> checkItems h it False;
            Some (flags @ push_if (itemErrors \<noteq> [])
              (Diag ''Composition items should not have errors'' (Some itemErrors)))
          }"
  from assms have f: "forEach ?f ss = Some se" by (simp add: checkItems_root)
  from forEach_member [OF f assms(2)] obtain a where a: "?f s = Some a" by blast
  then obtain it ie where 1: "get_prop s ''it'' = Some it"
    "checkItems h it False = Some ie" by (auto split: bind_splits)
  then have "field s ''it'' = it" by (simp add: field_def)
  with 1 show ?thesis by simp
qed

lemma shape_items_reported:
  assumes v: "validate h d = Some (errs, d')" and ls: "field d ''layers'' = JArr ls" "layer \<in> set ls"
    and ss: "field layer ''shapes'' = JArr ss" "item \<in> set ss"
    and tm: "(t, m) \<in> set shape_messages"
  shows "field item ''ty'' = JStr t \<Longrightarrow> Diag m None \<in> set (shapes_findings errs)"
    and "field item ''it'' = JArr cs \<Longrightarrow> c \<in> set cs \<Longrightarrow> field c ''ty'' = JStr t \<Longrightarrow>
      Diag m None \<in> set (items_findings errs)"
proof -
  from validate_reports_layer [OF v ls] obtain le where le: "checkLayer h layer = Some le"
    and r: "le \<noteq> [] \<Longrightarrow> \<exists>ds. Diag ''Layers have errors'' (Some ds) \<in> set errs \<and> Diag ''Layer '' (Some le) \<in> set ds"
    by blast
  from checkLayer_shapes [OF le ss(1)] obtain se where se: "checkItems h (JArr ss) True = Some se"
    and s: "se \<noteq> [] \<Longrightarrow> Diag ''Composition shapes should not have errors'' (Some se) \<in> set le"
    by blast
  have up: "e \<in> set (shapes_findings errs)" if "e \<in> set se" for e
  proof -
    from that have "se \<noteq> []" by auto
    from s [OF this] have 1: "Diag ''Composition shapes should not have errors'' (Some se) \<in> set le" .
    then have "le \<noteq> []" by auto
    from r [OF this] 1 that show ?thesis unfolding shapes_findings_def set_under by blast
  qed
  show "Diag m None \<in> set (shapes_findings errs)" if "field item ''ty'' = JStr t"
  proof -
    from that have "ty_is h item t = Some True" by (simp add: ty_is_str)
    with tm ss(2) have "Diag m None \<in> set se"
      unfolding checkItems_root_set [OF se] by blast
    then show ?thesis by (rule up)
  qed
  show "Diag m None \<in> set (items_findings errs)"
    if "field item ''it'' = JArr cs" "c \<in> set cs" "field c ''ty'' = JStr t"
  proof -
    from checkItems_root_member [OF se ss(2)] that(1)
    obtain ie where ie: "checkItems h (JArr cs) False = Some ie" by auto
    from that(3) have "ty_is h c t = Some True" by (simp add: ty_is_str)
    with tm that(2) have m: "Diag m None \<in> set ie"
      unfolding checkItems_leaf_set [OF ie] by blast
    then have "ie \<noteq> []" by auto
    moreover from ie that(1) have "checkItems h (field item ''it'') False = Some ie" by simp
    ultimately have "Diag ''Composition items should not have errors'' (Some ie) \<in> set se"
      unfolding checkItems_root_set [OF se] using ss(2) by blast
    then have "Diag ''Composition items should not have errors'' (Some ie) \<in> set (shapes_findings errs)"
      by (rule up)
    with m show ?thesis unfolding items_findings_def set_under by blast
  qed
qed

lemma checkItems_below_children:
  "checkItems h (JArr (map (below_children g) xs)) True = checkItems h (JArr xs) True"
proof -
  have "do {
            flags \<leftarrow> item_flags h (below_children g item);
            it \<leftarrow> get_prop (below_children g item) ''it'';
            itemErrors \<leftarrow> checkItems h it False;
            Some (flags @ push_if (itemErrors \<noteq> [])
              (Diag ''Composition items should not have errors'' (Some itemErrors)))
          } = do {
            flags \<leftarrow> item_flags h item;
            it \<leftarrow> get_prop item ''it'';
            itemErrors \<leftarrow> checkItems h it False;
            Some (flags @ push_if (itemErrors \<noteq> [])
              (Diag ''Composition items should not have errors'' (Some itemErrors)))
          }" for item
    using checkItems_below_children_it [of g item h]
    by (cases "get_prop (below_children g item) ''it''"; cases "get_prop item ''it''")
       (auto simp: item_flags_below_children)
  then show ?thesis
    by (simp add: checkItems_root forEach_map)
qed

lemma ev_nested:
  "validate example_host (sticker 30 0 90 [(''layers'', JArr [nested_layer])]) =
     Some ([Diag ''Layers have errors''
              (Some [Diag ''Layer ''
                 (Some [Diag ''Composition shapes should not have errors''
                    (Some [Diag ''Composition items should not have errors''
                       (Some [Diag ''Composition should not include any Repeaters'' None])])])])],
           sticker 30 0 90 [(''layers'', JArr [nested_layer]), (''tgs'', JNum (Fin 1))])"
  unfolding validate_def long_30_0_90
  by (simp add: eval_defs e1)

section \<open>The claims\<close>

text \<open>
  C1, as the code has it (\<^verbatim>\<open>src/unnamed/part_001\<close>). \<^verbatim>\<open>validate\<close> returns on every well-formed
  document, whatever else is missing, \<^verbatim>\<open>null\<close> or of another type; where \<^verbatim>\<open>layers\<close> is missing or not
  a list, the list it returns holds the diagnostic \<^verbatim>\<open>Should have atleast 1 layer\<close>. Well-formed
  is: an object or array; \<^verbatim>\<open>fr\<close>, \<^verbatim>\<open>op\<close>, \<^verbatim>\<open>ip\<close>, \<^verbatim>\<open>w\<close>, \<^verbatim>\<open>h\<close>, \<^verbatim>\<open>ddd\<close> that convert to primitives; a list \<^verbatim>\<open>assets\<close>
  holds objects or arrays only; a list \<^verbatim>\<open>layers\<close> holds objects or arrays only, with \<^verbatim>\<open>ddd\<close> and \<^verbatim>\<open>sr\<close>
  that convert; the items of a list \<^verbatim>\<open>shapes\<close> of a layer are not \<^verbatim>\<open>null\<close> or \<^verbatim>\<open>undefined\<close>, have a \<^verbatim>\<open>ty\<close>
  that converts and an \<^verbatim>\<open>it\<close> that is missing, \<^verbatim>\<open>null\<close> or a list of items that are not \<^verbatim>\<open>null\<close> or
  \<^verbatim>\<open>undefined\<close> and have a \<^verbatim>\<open>ty\<close> that converts.
\<close>

theorem validate_returns:
  assumes "well_formed d"
  shows "\<exists>errs d'. validate h d = Some (errs, d') \<and>
     (has_list d ''layers'' = Some False \<longrightarrow> Diag ''Should have atleast 1 layer'' None \<in> set errs)"
proof -
  from assms obtain fr long dims ddd layers and sz :: nat and d' where
    l: "layers_block h d = Some layers"
    and v: "validate h d = Some (push_if fr (Diag ''Frame rate must be exactly 30 or 60'' None)
       @ push_if long (Diag ''Should not be longer than 3 seconds'' None)
       @ push_if dims (Diag ''Dimensions should be exactly 512pxx512px'' None)
       @ push_if ddd (Diag ''Should not have 3D layers'' None)
       @ []
       @ layers
       @ push_if (isArray (field d ''fonts'') \<and> elems (field d ''fonts'') \<noteq> []) (Diag ''Should not have fonts'' None)
       @ push_if (isArray (field d ''chars'') \<and> elems (field d ''chars'') \<noteq> []) (Diag ''Should not have glyph chars'' None)
       @ push_if (65536 < sz) (Diag ''Total sticker size should not exceed 64 KB'' None),
       d')"
    by (rule validate_well_formed)
  have "has_list d ''layers'' = Some False \<Longrightarrow> Diag ''Should have atleast 1 layer'' None \<in> set layers"
    using l by (auto simp: layers_block_missing)
  with v show ?thesis by auto
qed

text \<open>
  An instance: a document without \<^verbatim>\<open>layers\<close> whose asset has no \<^verbatim>\<open>layers\<close>, and a document whose
  layer has a number in \<^verbatim>\<open>shapes\<close>.
\<close>

theorem validate_returns_witness:
  "well_formed (sticker 30 0 90 [(''assets'', JArr [JObj [(''id'', JStr ''image_0'')]])]) \<and>
   (\<exists>errs d'. validate example_host (sticker 30 0 90 [(''assets'', JArr [JObj [(''id'', JStr ''image_0'')]])])
       = Some (errs, d') \<and> Diag ''Should have atleast 1 layer'' None \<in> set errs) \<and>
   well_formed (sticker 30 0 90 [(''layers'', JArr [JObj [(''ty'', JNum (Fin 4)), (''shapes'', JNum (Fin 7))]])]) \<and>
   (\<exists>errs d'. validate example_host
       (sticker 30 0 90 [(''layers'', JArr [JObj [(''ty'', JNum (Fin 4)), (''shapes'', JNum (Fin 7))]])])
       = Some (errs, d'))"
proof -
  have "has_list (sticker 30 0 90 [(''assets'', JArr [JObj [(''id'', JStr ''image_0'')]])]) ''layers'' = Some False"
    by (simp add: sticker_def has_list_def andalso_def)
  with validate_returns [OF wf_examples(1), of example_host]
  have 1: "\<exists>errs d'. validate example_host (sticker 30 0 90 [(''assets'', JArr [JObj [(''id'', JStr ''image_0'')]])])
       = Some (errs, d') \<and> Diag ''Should have atleast 1 layer'' None \<in> set errs"
    by simp
  from validate_returns [OF wf_examples(2), of example_host]
  have 2: "\<exists>errs d'. validate example_host
       (sticker 30 0 90 [(''layers'', JArr [JObj [(''ty'', JNum (Fin 4)), (''shapes'', JNum (Fin 7))]])])
       = Some (errs, d')"
    by blast
  from 1 2 wf_examples show ?thesis by blast
qed

text \<open>
  C1 as stated fails: \<^verbatim>\<open>validate\<close> throws a \<^verbatim>\<open>TypeError\<close> on the document \<^verbatim>\<open>null\<close> (which \<^verbatim>\<open>load\<close>
  stores), on a document whose \<^verbatim>\<open>layers\<close> list holds \<^verbatim>\<open>null\<close>, and on a layer whose \<^verbatim>\<open>shapes\<close> list
  holds \<^verbatim>\<open>null\<close>; the \<^verbatim>\<open>validate\<close> of \<^verbatim>\<open>src/TGSKit.ts\<close> throws on an asset without \<^verbatim>\<open>layers\<close>. It
  also throws on a shape item whose \<^verbatim>\<open>ty\<close> is an object with a \<^verbatim>\<open>toString\<close> entry, which the
  comparison \<^verbatim>\<open>item.ty == 'rp'\<close> cannot convert to a primitive.
\<close>

theorem validate_throws:
  "validate example_host JNull = None \<and>
   validate example_host (sticker 30 0 90 [(''layers'', JArr [JNull])]) = None \<and>
   validate example_host (sticker 30 0 90 [(''layers'', JArr [JObj [(''ty'', JNum (Fin 4)), (''shapes'', JArr [JNull])]])]) = None \<and>
   TGSKit_validate example_host (sticker 30 0 90 [(''assets'', JArr [JObj [(''id'', JStr ''image_0'')]]),
       (''layers'', JArr [shape_layer])]) = None \<and>
   validate example_host (sticker 30 0 90 [(''layers'', JArr [JObj [(''ty'', JNum (Fin 4)),
       (''shapes'', JArr [JObj [(''ty'', JObj [(''toString'', JNum (Fin 1))])]])]])]) = None"
proof -
  have 1: "validate example_host JNull = None"
    by (simp add: validate_def field_ne_def andalso_def)
  have "checkLayer example_host JNull = None"
    by (simp add: checkLayer_def field_not_null_def andalso_def)
  then have 2: "validate example_host (sticker 30 0 90 [(''layers'', JArr [JNull])]) = None"
    unfolding validate_def long_30_0_90
    by (simp add: eval_defs)
  have "checkLayer example_host (JObj [(''ty'', JNum (Fin 4)), (''shapes'', JArr [JNull])]) = None"
    by (simp add: checkLayer_def field_defs checkItems_root item_flags_def ty_is_def)
  then have 3: "validate example_host (sticker 30 0 90 [(''layers'', JArr [JObj [(''ty'', JNum (Fin 4)), (''shapes'', JArr [JNull])]])]) = None"
    unfolding validate_def long_30_0_90
    by (simp add: eval_defs)
  have "TGSKit_checkLayer example_host JUndefined = None"
    by (simp add: TGSKit_checkLayer_def field_not_null_def andalso_def)
  then have 4: "TGSKit_validate example_host (sticker 30 0 90 [(''assets'', JArr [JObj [(''id'', JStr ''image_0'')]]),
       (''layers'', JArr [shape_layer])]) = None"
    unfolding TGSKit_validate_def long_30_0_90
    by (simp add: TGSKit_eval_defs)
  have "checkLayer example_host (JObj [(''ty'', JNum (Fin 4)),
       (''shapes'', JArr [JObj [(''ty'', JObj [(''toString'', JNum (Fin 1))])]])]) = None"
    by (simp add: checkLayer_def field_defs andalso_def orelse_def has_list_def field_isArray_def
        checkItems_root item_flags_def ty_is_def loose_eq_str_def ToPrimitive_def)
  then have 5: "validate example_host (sticker 30 0 90 [(''layers'', JArr [JObj [(''ty'', JNum (Fin 4)),
       (''shapes'', JArr [JObj [(''ty'', JObj [(''toString'', JNum (Fin 1))])]])]])]) = None"
    unfolding validate_def long_30_0_90
    by (simp add: eval_defs)
  from 1 2 3 4 5 show ?thesis by simp
qed

text \<open>
  C2. On a well-formed document \<^verbatim>\<open>validate\<close> returns; and whenever it returns, its list holds
  the frame-rate diagnostic exactly when \<^verbatim>\<open>fr\<close> is loosely equal neither to 30 nor to 60: for
  a number, when it is neither 30 nor 60.
\<close>

theorem frame_rate_diagnostic:
  "(well_formed d \<longrightarrow> (\<exists>errs d'. validate h d = Some (errs, d'))) \<and>
   (\<forall>errs d'. validate h d = Some (errs, d') \<longrightarrow>
      (Diag ''Frame rate must be exactly 30 or 60'' None \<in> set errs \<longleftrightarrow>
         loose_eq_num h (field d ''fr'') (Fin 30) = Some False \<and>
         loose_eq_num h (field d ''fr'') (Fin 60) = Some False) \<and>
      (\<forall>n. field d ''fr'' = JNum n \<longrightarrow>
         (Diag ''Frame rate must be exactly 30 or 60'' None \<in> set errs \<longleftrightarrow>
            n \<noteq> Fin 30 \<and> n \<noteq> Fin 60)))"
proof -
  have total: "\<exists>errs d'. validate h d = Some (errs, d')" if "well_formed d"
    using that by (rule validate_well_formed) blast
  have part: "(Diag ''Frame rate must be exactly 30 or 60'' None \<in> set errs \<longleftrightarrow>
         loose_eq_num h (field d ''fr'') (Fin 30) = Some False \<and>
         loose_eq_num h (field d ''fr'') (Fin 60) = Some False) \<and>
      (\<forall>n. field d ''fr'' = JNum n \<longrightarrow>
         (Diag ''Frame rate must be exactly 30 or 60'' None \<in> set errs \<longleftrightarrow>
            n \<noteq> Fin 30 \<and> n \<noteq> Fin 60))"
    if v: "validate h d = Some (errs, d')" for errs d'
  proof -
    from v obtain fr where
      f: "andalso (field_ne h d ''fr'' (Fin 30)) (field_ne h d ''fr'' (Fin 60)) = Some fr"
      and m: "Diag ''Frame rate must be exactly 30 or 60'' None \<in> set errs \<longleftrightarrow> fr"
      by (rule validate_top_level)
    have nn: "\<not> nullish d" using v by (rule validate_not_nullish)
    have fr: "fr \<longleftrightarrow> loose_eq_num h (field d ''fr'') (Fin 30) = Some False \<and>
              loose_eq_num h (field d ''fr'') (Fin 60) = Some False"
      using f by (auto simp: andalso_def field_ne_def get_prop_field [OF nn] split: bind_splits if_splits)
    have "js_eq n (Fin 30) \<longleftrightarrow> n = Fin 30" "js_eq n (Fin 60) \<longleftrightarrow> n = Fin 60" for n
      by (cases n; simp add: js_eq_def)+
    then show ?thesis using m fr by auto
  qed
  from total part show ?thesis by blast
qed

text \<open>
  An instance: at 30 frames per second the diagnostic is absent, at 25 it is the one
  diagnostic returned.
\<close>

theorem frame_rate_diagnostic_witness:
  "well_formed (sticker 30 0 90 [(''layers'', JArr [shape_layer])]) \<and>
   validate example_host (sticker 30 0 90 [(''layers'', JArr [shape_layer])]) =
     Some ([], sticker 30 0 90 [(''layers'', JArr [shape_layer]), (''tgs'', JNum (Fin 1))]) \<and>
   Diag ''Frame rate must be exactly 30 or 60'' None \<notin> set [] \<and>
   well_formed (sticker 25 0 50 [(''layers'', JArr [shape_layer])]) \<and>
   validate example_host (sticker 25 0 50 [(''layers'', JArr [shape_layer])]) =
     Some ([Diag ''Frame rate must be exactly 30 or 60'' None],
           sticker 25 0 50 [(''layers'', JArr [shape_layer]), (''tgs'', JNum (Fin 1))]) \<and>
   Diag ''Frame rate must be exactly 30 or 60'' None
     \<in> set [Diag ''Frame rate must be exactly 30 or 60'' None]"
  using frame_rate_diagnostic [of "sticker 30 0 90 [(''layers'', JArr [shape_layer])]" example_host]
    frame_rate_diagnostic [of "sticker 25 0 50 [(''layers'', JArr [shape_layer])]" example_host]
    ev30 ev25 wf_stickers
  by simp



text \<open>
  C4. On a well-formed document \<^verbatim>\<open>validate\<close> returns; and whenever it returns, its list holds
  the size diagnostic exactly when the compressed JSON of the document, as \<^verbatim>\<open>generate\<close> leaves
  it, has more than 65536 bytes.
\<close>

theorem size_budget:
  "(well_formed d \<longrightarrow> (\<exists>errs d'. validate h d = Some (errs, d'))) \<and>
   (\<forall>errs d'. validate h d = Some (errs, d') \<longrightarrow>
      (Diag ''Total sticker size should not exceed 64 KB'' None \<in> set errs \<longleftrightarrow>
         65536 < gzip_size h d'))"
proof -
  have total: "\<exists>errs d'. validate h d = Some (errs, d')" if "well_formed d"
    using that by (rule validate_well_formed) blast
  have part: "Diag ''Total sticker size should not exceed 64 KB'' None \<in> set errs \<longleftrightarrow>
      65536 < gzip_size h d'" if v: "validate h d = Some (errs, d')" for errs d'
  proof -
    from v obtain sz where "generate h d = Some (sz, d')"
      "Diag ''Total sticker size should not exceed 64 KB'' None \<in> set errs \<longleftrightarrow> 65536 < sz"
      by (rule validate_top_level)
    then show ?thesis using generate_size by blast
  qed
  from total part show ?thesis by blast
qed

text \<open>
  An instance: the document that passes every other check gets the size diagnostic, and
  only it, where its artifact has 70000 bytes.
\<close>

theorem size_budget_witness:
  "well_formed (sticker 30 0 90 [(''layers'', JArr [shape_layer])]) \<and>
   validate heavy_host (sticker 30 0 90 [(''layers'', JArr [shape_layer])]) =
     Some ([Diag ''Total sticker size should not exceed 64 KB'' None],
           sticker 30 0 90 [(''layers'', JArr [shape_layer]), (''tgs'', JNum (Fin 1))]) \<and>
   65536 < gzip_size heavy_host (sticker 30 0 90 [(''layers'', JArr [shape_layer]), (''tgs'', JNum (Fin 1))]) \<and>
   validate example_host (sticker 30 0 90 [(''layers'', JArr [shape_layer])]) =
     Some ([], sticker 30 0 90 [(''layers'', JArr [shape_layer]), (''tgs'', JNum (Fin 1))]) \<and>
   gzip_size example_host (sticker 30 0 90 [(''layers'', JArr [shape_layer]), (''tgs'', JNum (Fin 1))]) \<le> 65536"
  using size_budget [of "sticker 30 0 90 [(''layers'', JArr [shape_layer])]" heavy_host]
    size_budget [of "sticker 30 0 90 [(''layers'', JArr [shape_layer])]" example_host]
    ev_heavy ev30 wf_stickers
  by (simp add: not_less)

text \<open>
  C5, as the code has it (\<^verbatim>\<open>src/unnamed/part_001\<close>). \<^verbatim>\<open>validate\<close> returns on every well-formed
  document. Whenever it returns, an item of a layer's \<^verbatim>\<open>shapes\<close> list whose \<^verbatim>\<open>ty\<close> is \<^verbatim>\<open>rp\<close>, \<^verbatim>\<open>sr\<close>, \<^verbatim>\<open>mm\<close>
  or \<^verbatim>\<open>gs\<close> is reported with its message under \<^verbatim>\<open>Composition shapes should not have errors\<close>, and
  so is an item of the \<^verbatim>\<open>it\<close> list of an item of \<^verbatim>\<open>shapes\<close> (as \<^verbatim>\<open>shapes[0].it[0]\<close>), one level further
  down under \<^verbatim>\<open>Composition items should not have errors\<close>. \<^verbatim>\<open>checkItems\<close> returns nothing else: for
  a \<^verbatim>\<open>shapes\<close> list, the messages of the items whose \<^verbatim>\<open>ty\<close> equals one of the four types and, for
  each item, the findings of its \<^verbatim>\<open>it\<close> list if there are any; for an \<^verbatim>\<open>it\<close> list, the messages of
  its items only. Whatever is put as \<^verbatim>\<open>it\<close> into the items of the \<^verbatim>\<open>it\<close> lists (\<^verbatim>\<open>shapes[0].it[0].it\<close>
  and below), the result is the same.
\<close>

theorem checkItems_depth:
  "(well_formed d \<longrightarrow> (\<exists>errs d'. validate h d = Some (errs, d'))) \<and>
   (\<forall>errs d' ls layer ss item. validate h d = Some (errs, d') \<and> field d ''layers'' = JArr ls \<and>
        layer \<in> set ls \<and> field layer ''shapes'' = JArr ss \<and> item \<in> set ss \<longrightarrow>
      (\<forall>(t, m) \<in> set shape_messages.
         (field item ''ty'' = JStr t \<longrightarrow> Diag m None \<in> set (shapes_findings errs)) \<and>
         (\<forall>cs c. field item ''it'' = JArr cs \<and> c \<in> set cs \<and> field c ''ty'' = JStr t \<longrightarrow>
            Diag m None \<in> set (items_findings errs)))) \<and>
   (\<forall>ss se e. checkItems h (JArr ss) True = Some se \<longrightarrow>
      (e \<in> set se \<longleftrightarrow>
         (\<exists>s \<in> set ss.
            (\<exists>(t, m) \<in> set shape_messages. ty_is h s t = Some True \<and> e = Diag m None) \<or>
            (\<exists>ie. checkItems h (field s ''it'') False = Some ie \<and> ie \<noteq> [] \<and>
               e = Diag ''Composition items should not have errors'' (Some ie))))) \<and>
   (\<forall>cs ie e. checkItems h (JArr cs) False = Some ie \<longrightarrow>
      (e \<in> set ie \<longleftrightarrow>
         (\<exists>c \<in> set cs. \<exists>(t, m) \<in> set shape_messages. ty_is h c t = Some True \<and> e = Diag m None))) \<and>
   (\<forall>c t s. field c ''ty'' = JStr t \<longrightarrow> ty_is h c s = Some (t = s)) \<and>
   (\<forall>g xs. checkItems h (JArr (map (below_children g) xs)) True = checkItems h (JArr xs) True)"
proof (intro conjI)
  show "well_formed d \<longrightarrow> (\<exists>errs d'. validate h d = Some (errs, d'))"
  proof
    assume "well_formed d"
    then show "\<exists>errs d'. validate h d = Some (errs, d')" by (rule validate_well_formed) blast
  qed
  show "\<forall>errs d' ls layer ss item. validate h d = Some (errs, d') \<and> field d ''layers'' = JArr ls \<and>
        layer \<in> set ls \<and> field layer ''shapes'' = JArr ss \<and> item \<in> set ss \<longrightarrow>
      (\<forall>(t, m) \<in> set shape_messages.
         (field item ''ty'' = JStr t \<longrightarrow> Diag m None \<in> set (shapes_findings errs)) \<and>
         (\<forall>cs c. field item ''it'' = JArr cs \<and> c \<in> set cs \<and> field c ''ty'' = JStr t \<longrightarrow>
            Diag m None \<in> set (items_findings errs)))"
  proof (intro allI impI ballI, clarify, intro conjI impI allI)
    fix errs d' ls layer ss item t m
    assume a: "validate h d = Some (errs, d')" "field d ''layers'' = JArr ls" "layer \<in> set ls"
      "field layer ''shapes'' = JArr ss" "item \<in> set ss" "(t, m) \<in> set shape_messages"
    show "Diag m None \<in> set (shapes_findings errs)" if "field item ''ty'' = JStr t"
      using a that by (rule shape_items_reported(1))
    show "Diag m None \<in> set (items_findings errs)"
      if "field item ''it'' = JArr cs \<and> c \<in> set cs \<and> field c ''ty'' = JStr t" for cs c
    proof -
      from that have "field item ''it'' = JArr cs" "c \<in> set cs" "field c ''ty'' = JStr t" by simp_all
      with a show ?thesis by (rule shape_items_reported(2))
    qed
  qed
  show "\<forall>ss se e. checkItems h (JArr ss) True = Some se \<longrightarrow>
      (e \<in> set se \<longleftrightarrow>
         (\<exists>s \<in> set ss.
            (\<exists>(t, m) \<in> set shape_messages. ty_is h s t = Some True \<and> e = Diag m None) \<or>
            (\<exists>ie. checkItems h (field s ''it'') False = Some ie \<and> ie \<noteq> [] \<and>
               e = Diag ''Composition items should not have errors'' (Some ie))))"
    using checkItems_root_set by blast
  show "\<forall>cs ie e. checkItems h (JArr cs) False = Some ie \<longrightarrow>
      (e \<in> set ie \<longleftrightarrow>
         (\<exists>c \<in> set cs. \<exists>(t, m) \<in> set shape_messages. ty_is h c t = Some True \<and> e = Diag m None))"
    using checkItems_leaf_set by blast
  show "\<forall>c t s. field c ''ty'' = JStr t \<longrightarrow> ty_is h c s = Some (t = s)"
    by (simp add: ty_is_str)
  show "\<forall>g xs. checkItems h (JArr (map (below_children g) xs)) True = checkItems h (JArr xs) True"
    by (simp add: checkItems_below_children)
qed

text \<open>
  An instance: a layer whose one group holds a repeater that holds a star. The repeater, at
  \<^verbatim>\<open>shapes[0].it[0]\<close>, is reported; the star below it is not, and the result of \<^verbatim>\<open>checkItems\<close>
  stays when the repeater's \<^verbatim>\<open>it\<close> becomes \<^verbatim>\<open>null\<close>.
\<close>

theorem checkItems_depth_witness:
  "well_formed (sticker 30 0 90 [(''layers'', JArr [nested_layer])]) \<and>
   validate example_host (sticker 30 0 90 [(''layers'', JArr [nested_layer])]) =
     Some ([Diag ''Layers have errors''
              (Some [Diag ''Layer ''
                 (Some [Diag ''Composition shapes should not have errors''
                    (Some [Diag ''Composition items should not have errors''
                       (Some [Diag ''Composition should not include any Repeaters'' None])])])])],
           sticker 30 0 90 [(''layers'', JArr [nested_layer]), (''tgs'', JNum (Fin 1))]) \<and>
   field (sticker 30 0 90 [(''layers'', JArr [nested_layer])]) ''layers'' = JArr [nested_layer] \<and>
   field nested_layer ''shapes'' = JArr [JObj [(''ty'', JStr ''gr''), (''it'', JArr [JObj [(''ty'', JStr ''rp''), (''it'', JArr [JObj [(''ty'', JStr ''sr'')]])]])]] \<and>
   field (JObj [(''ty'', JStr ''gr''), (''it'', JArr [JObj [(''ty'', JStr ''rp''), (''it'', JArr [JObj [(''ty'', JStr ''sr'')]])]])]) ''it'' = JArr [JObj [(''ty'', JStr ''rp''), (''it'', JArr [JObj [(''ty'', JStr ''sr'')]])]] \<and>
   field (JObj [(''ty'', JStr ''rp''), (''it'', JArr [JObj [(''ty'', JStr ''sr'')]])]) ''ty'' = JStr ''rp'' \<and>
   (''rp'', ''Composition should not include any Repeaters'') \<in> set shape_messages \<and>
   Diag ''Composition should not include any Repeaters'' None \<in> set (items_findings
     ([Diag ''Layers have errors''
              (Some [Diag ''Layer ''
                 (Some [Diag ''Composition shapes should not have errors''
                    (Some [Diag ''Composition items should not have errors''
                       (Some [Diag ''Composition should not include any Repeaters'' None])])])])])) \<and>
   Diag ''Composition should not include any Star Shapes'' None \<notin> set (items_findings
     ([Diag ''Layers have errors''
              (Some [Diag ''Layer ''
                 (Some [Diag ''Composition shapes should not have errors''
                    (Some [Diag ''Composition items should not have errors''
                       (Some [Diag ''Composition should not include any Repeaters'' None])])])])])) \<and>
   checkItems example_host (JArr (map (below_children (\<lambda>c. JNull)) [JObj [(''ty'', JStr ''gr''), (''it'', JArr [JObj [(''ty'', JStr ''rp''), (''it'', JArr [JObj [(''ty'', JStr ''sr'')]])]])]])) True =
     checkItems example_host (JArr [JObj [(''ty'', JStr ''gr''), (''it'', JArr [JObj [(''ty'', JStr ''rp''), (''it'', JArr [JObj [(''ty'', JStr ''sr'')]])]])]]) True"
proof -
  have w: "well_formed (sticker 30 0 90 [(''layers'', JArr [nested_layer])])"
    by (simp add: well_formed_def sticker_def field_def wf_layer_def nested_layer_def wf_shape_def
        wf_children_def wf_child_def)
  have f: "field (sticker 30 0 90 [(''layers'', JArr [nested_layer])]) ''layers'' = JArr [nested_layer]"
    "field nested_layer ''shapes'' = JArr [JObj [(''ty'', JStr ''gr''), (''it'', JArr [JObj [(''ty'', JStr ''rp''), (''it'', JArr [JObj [(''ty'', JStr ''sr'')]])]])]]"
    "field (JObj [(''ty'', JStr ''gr''), (''it'', JArr [JObj [(''ty'', JStr ''rp''), (''it'', JArr [JObj [(''ty'', JStr ''sr'')]])]])]) ''it'' = JArr [JObj [(''ty'', JStr ''rp''), (''it'', JArr [JObj [(''ty'', JStr ''sr'')]])]]"
    "field (JObj [(''ty'', JStr ''rp''), (''it'', JArr [JObj [(''ty'', JStr ''sr'')]])]) ''ty'' = JStr ''rp''"
    by (simp_all add: sticker_def nested_layer_def field_def)
  have m: "(''rp'', ''Composition should not include any Repeaters'') \<in> set shape_messages"
    by (simp add: shape_messages_def)
  note c = checkItems_depth [of "sticker 30 0 90 [(''layers'', JArr [nested_layer])]" example_host]
  from c ev_nested f m
  have 1: "Diag ''Composition should not include any Repeaters'' None \<in> set (items_findings
     ([Diag ''Layers have errors''
              (Some [Diag ''Layer ''
                 (Some [Diag ''Composition shapes should not have errors''
                    (Some [Diag ''Composition items should not have errors''
                       (Some [Diag ''Composition should not include any Repeaters'' None])])])])]))"
    by (elim conjE allE [where x = "[Diag ''Layers have errors''
              (Some [Diag ''Layer ''
                 (Some [Diag ''Composition shapes should not have errors''
                    (Some [Diag ''Composition items should not have errors''
                       (Some [Diag ''Composition should not include any Repeaters'' None])])])])]"]) force
  have 2: "Diag ''Composition should not include any Star Shapes'' None \<notin> set (items_findings
     ([Diag ''Layers have errors''
              (Some [Diag ''Layer ''
                 (Some [Diag ''Composition shapes should not have errors''
                    (Some [Diag ''Composition items should not have errors''
                       (Some [Diag ''Composition should not include any Repeaters'' None])])])])]))"
    by (simp add: items_findings_def shapes_findings_def under_def)
  from c have 3: "checkItems example_host (JArr (map (below_children (\<lambda>c. JNull)) [JObj [(''ty'', JStr ''gr''), (''it'', JArr [JObj [(''ty'', JStr ''rp''), (''it'', JArr [JObj [(''ty'', JStr ''sr'')]])]])]])) True =
     checkItems example_host (JArr [JObj [(''ty'', JStr ''gr''), (''it'', JArr [JObj [(''ty'', JStr ''rp''), (''it'', JArr [JObj [(''ty'', JStr ''sr'')]])]])]]) True"
    by blast
  from w ev_nested f m 1 2 3 show ?thesis by blast
qed

text \<open>
  C5 as stated fails: \<^verbatim>\<open>validate\<close> does flag the repeater at \<^verbatim>\<open>shapes[0].it[0]\<close>.
\<close>

theorem repeater_in_group_flagged:
  "validate example_host (sticker 30 0 90 [(''layers'', JArr [nested_layer])]) =
     Some ([Diag ''Layers have errors''
              (Some [Diag ''Layer ''
                 (Some [Diag ''Composition shapes should not have errors''
                    (Some [Diag ''Composition items should not have errors''
                       (Some [Diag ''Composition should not include any Repeaters'' None])])])])],
           sticker 30 0 90 [(''layers'', JArr [nested_layer]), (''tgs'', JNum (Fin 1))])"
  unfolding validate_def long_30_0_90
  by (simp add: eval_defs e1)

text \<open>
  C6 is right and the code is not. The \<^verbatim>\<open>validate\<close> of \<^verbatim>\<open>src/TGSKit.ts\<close> returns no diagnostic for
  a document whose layer is a solid, although its \<^verbatim>\<open>checkLayer\<close> finds it: the finding goes to
  \<^verbatim>\<open>errors.concat\<close>, whose result is dropped. The later \<^verbatim>\<open>validate\<close> reports the layers of the
  document, but returns no diagnostic for an asset whose layer is a solid: it hands the
  asset's list of layers to \<^verbatim>\<open>checkLayer\<close>, not each layer.
\<close>

theorem findings_dropped:
  "checkLayer example_host solid_layer = Some [Diag ''Composition should not include any Solids'' None] \<and>
   TGSKit_checkLayer example_host solid_layer = Some [''Composition should not include any Solids''] \<and>
   TGSKit_validate example_host (sticker 30 0 90 [(''layers'', JArr [solid_layer])]) = Some [] \<and>
   validate example_host (sticker 30 0 90 [(''layers'', JArr [shape_layer]),
       (''assets'', JArr [JObj [(''id'', JStr ''comp_0''), (''layers'', JArr [solid_layer])]])]) =
     Some ([], sticker 30 0 90 [(''layers'', JArr [shape_layer]),
       (''assets'', JArr [JObj [(''id'', JStr ''comp_0''), (''layers'', JArr [solid_layer])]]),
       (''tgs'', JNum (Fin 1))])"
proof -
  have 1: "TGSKit_validate example_host (sticker 30 0 90 [(''layers'', JArr [solid_layer])]) = Some []"
    unfolding TGSKit_validate_def long_30_0_90
    by (simp add: TGSKit_eval_defs TGSKit_solid)
  have 2: "validate example_host (sticker 30 0 90 [(''layers'', JArr [shape_layer]),
       (''assets'', JArr [JObj [(''id'', JStr ''comp_0''), (''layers'', JArr [solid_layer])]])]) =
     Some ([], sticker 30 0 90 [(''layers'', JArr [shape_layer]),
       (''assets'', JArr [JObj [(''id'', JStr ''comp_0''), (''layers'', JArr [solid_layer])]]),
       (''tgs'', JNum (Fin 1))])"
    unfolding validate_def long_30_0_90
    by (simp add: eval_defs e2 checkLayer_list)
  from 1 2 e3 TGSKit_solid show ?thesis by simp
qed

text \<open>
  What holds of C6: the later \<^verbatim>\<open>validate\<close> reports every finding of a layer of the document's
  own \<^verbatim>\<open>layers\<close> list, under \<^verbatim>\<open>Layers have errors\<close> and \<^verbatim>\<open>Layer\<close>; and the \<^verbatim>\<open>validate\<close> of
  \<^verbatim>\<open>src/TGSKit.ts\<close> never returns anything but its five document-level messages.
\<close>

lemma layer_findings_reported:
  assumes "validate h d = Some (errs, d')" "field d ''layers'' = JArr ls" "l \<in> set ls"
    "checkLayer h l = Some fs" "fs \<noteq> []"
  shows "\<exists>ds. Diag ''Layers have errors'' (Some ds) \<in> set errs \<and> Diag ''Layer '' (Some fs) \<in> set ds"
proof -
  from assms(1) obtain fr long dims ddd assets layers fonts chars and sz :: nat where
    l: "layers_block h d = Some layers"
    and e: "errs = push_if fr (Diag ''Frame rate must be exactly 30 or 60'' None)
       @ push_if long (Diag ''Should not be longer than 3 seconds'' None)
       @ push_if dims (Diag ''Dimensions should be exactly 512pxx512px'' None)
       @ push_if ddd (Diag ''Should not have 3D layers'' None)
       @ assets
       @ layers
       @ push_if fonts (Diag ''Should not have fonts'' None)
       @ push_if chars (Diag ''Should not have glyph chars'' None)
       @ push_if (65536 < sz) (Diag ''Total sticker size should not exceed 64 KB'' None)"
    by (rule validate_SomeE)
  have ob: "is_object d" using assms(2) by (cases d) (auto simp: field_def)
  then have nn: "\<not> nullish d" by (rule is_object_not_nullish)
  have hl: "has_list d ''layers'' = Some True" using has_list_object [OF ob] assms(2) by simp
  from l obtain final p where lp: "layersLoop h ls [] 0 = Some (final, p)"
    and ly: "layers = replicate p (Diag ''Layers have errors'' (Some final))"
    unfolding layers_block_def hl using assms(2)
    by (auto simp: get_prop_field [OF nn] split: bind_splits)
  have f: "Diag ''Layer '' (Some fs) \<in> set final"
    using lp assms(3-5) by (rule layersLoop_finds)
  then have "ls \<noteq> [] \<and> final \<noteq> []" using assms(3) by auto
  with layersLoop_counts [OF lp] have "0 < p" by simp
  then have "Diag ''Layers have errors'' (Some final) \<in> set layers" by (simp add: ly)
  then show ?thesis using f by (auto simp: e)
qed

lemma TGSKit_validate_messages:
  assumes "TGSKit_validate h d = Some errs"
  shows "set errs \<subseteq> {''Longer than 3 seconds'', ''Dimensions should be exactly 512pxx512px'',
     ''Must not have 3D layers'', ''Must not have markers'', ''Must have atleast 1 layer''}"
proof -
  from assms obtain long dims ddd markers assets layers where
    a: "TGSKit_assets_block h d = Some assets"
    and ly: "TGSKit_layers_block h d = Some layers"
    and e: "errs = push_if long ''Longer than 3 seconds''
       @ push_if dims ''Dimensions should be exactly 512pxx512px''
       @ push_if ddd ''Must not have 3D layers''
       @ push_if markers ''Must not have markers''
       @ assets
       @ layers"
    by (rule TGSKit_validate_SomeE)
  have "assets = []" using a by (rule TGSKit_assets_block_empty)
  moreover have "layers = [] \<or> layers = [''Must have atleast 1 layer'']"
    using ly by (rule TGSKit_layers_block_msgs)
  ultimately show ?thesis by (auto simp: e set_push_if split: if_splits)
qed

text \<open>
  C7, as the code has it. The diagnostics of \<^verbatim>\<open>validate\<close>, and the document it leaves, are the
  same with any \<^verbatim>\<open>markers\<close> property as without one: the check is commented out. The
  \<^verbatim>\<open>validate\<close> of \<^verbatim>\<open>src/TGSKit.ts\<close> reports markers exactly when the document has a property
  \<^verbatim>\<open>markers\<close>, whatever it holds.
\<close>

theorem markers_ignored:
  "validate h (JObj (AList.update ''markers'' m kvs)) = validate h (JObj (AList.delete ''markers'' kvs)) \<and>
   (\<forall>errs. TGSKit_validate h d = Some errs \<longrightarrow>
      (''Must not have markers'' \<in> set errs \<longleftrightarrow> has_prop ''markers'' d = Some True))"
proof -
  have "AList.delete ''markers'' (AList.update ''tgs'' (JNum (Fin 1)) (AList.update ''markers'' m kvs)) =
        AList.delete ''markers'' (AList.update ''tgs'' (JNum (Fin 1)) (AList.delete ''markers'' kvs))"
    by (simp add: delete_update delete_update_same delete_idem)
  then have g: "generate h (JObj (AList.update ''markers'' m kvs)) = generate h (JObj (AList.delete ''markers'' kvs))"
    by (simp add: generate_def)
  have 1: "validate h (JObj (AList.update ''markers'' m kvs)) = validate h (JObj (AList.delete ''markers'' kvs))"
    by (rule validate_agree) (simp_all add: g update_conv')
  have 2: "''Must not have markers'' \<in> set errs \<longleftrightarrow> has_prop ''markers'' d = Some True"
    if "TGSKit_validate h d = Some errs" for errs
  proof -
    from that obtain long dims ddd markers assets layers where
      mk: "has_prop ''markers'' d = Some markers"
      and a: "TGSKit_assets_block h d = Some assets"
      and ly: "TGSKit_layers_block h d = Some layers"
      and e: "errs = push_if long ''Longer than 3 seconds''
       @ push_if dims ''Dimensions should be exactly 512pxx512px''
       @ push_if ddd ''Must not have 3D layers''
       @ push_if markers ''Must not have markers''
       @ assets
       @ layers"
      by (rule TGSKit_validate_SomeE)
    have "assets = []" using a by (rule TGSKit_assets_block_empty)
    moreover have "layers = [] \<or> layers = [''Must have atleast 1 layer'']"
      using ly by (rule TGSKit_layers_block_msgs)
    ultimately have "''Must not have markers'' \<in> set errs \<longleftrightarrow> markers"
      by (auto simp: e set_push_if)
    with mk show ?thesis by simp
  qed
  from 1 2 show ?thesis by blast
qed

text \<open>
  An instance: a list of one marker changes nothing, and in \<^verbatim>\<open>src/TGSKit.ts\<close> an empty list of
  markers is reported.
\<close>

theorem markers_ignored_witness:
  "validate example_host (JObj (AList.update ''markers'' (JArr [JObj [(''cm'', JStr ''loop'')]])
       [(''fr'', JNum (Fin 30)), (''layers'', JArr [shape_layer])])) =
   validate example_host (JObj (AList.delete ''markers''
       [(''fr'', JNum (Fin 30)), (''layers'', JArr [shape_layer])])) \<and>
   TGSKit_validate example_host (sticker 30 0 90 [(''layers'', JArr [shape_layer]), (''markers'', JArr [])]) =
     Some [''Must not have markers''] \<and>
   has_prop ''markers'' (sticker 30 0 90 [(''layers'', JArr [shape_layer]), (''markers'', JArr [])]) = Some True"
proof -
  have t: "TGSKit_validate example_host (sticker 30 0 90 [(''layers'', JArr [shape_layer]), (''markers'', JArr [])]) =
     Some [''Must not have markers'']"
    unfolding TGSKit_validate_def long_30_0_90
    by (simp add: TGSKit_eval_defs TGSKit_checkLayer_def shape_layer_def TGSKit_checkItems_root)
  from markers_ignored [of example_host "JArr [JObj [(''cm'', JStr ''loop'')]]"
      "[(''fr'', JNum (Fin 30)), (''layers'', JArr [shape_layer])]"
      "sticker 30 0 90 [(''layers'', JArr [shape_layer]), (''markers'', JArr [])]"] t
  show ?thesis by simp
qed

text \<open>
  C7 as stated fails: a document with one marker gets no diagnostic from \<^verbatim>\<open>validate\<close>, and a
  document with an empty \<^verbatim>\<open>markers\<close> list gets the markers diagnostic from the \<^verbatim>\<open>validate\<close> of
  \<^verbatim>\<open>src/TGSKit.ts\<close>.
\<close>

theorem markers_not_reported:
  "validate example_host (sticker 30 0 90 [(''layers'', JArr [shape_layer]),
       (''markers'', JArr [JObj [(''cm'', JStr ''loop''), (''tm'', JNum (Fin 0)), (''dr'', JNum (Fin 90))]])]) =
     Some ([], sticker 30 0 90 [(''layers'', JArr [shape_layer]), (''tgs'', JNum (Fin 1))]) \<and>
   TGSKit_validate example_host (sticker 30 0 90 [(''layers'', JArr [shape_layer]), (''markers'', JArr [])]) =
     Some [''Must not have markers'']"
proof -
  have 1: "validate example_host (sticker 30 0 90 [(''layers'', JArr [shape_layer]),
       (''markers'', JArr [JObj [(''cm'', JStr ''loop''), (''tm'', JNum (Fin 0)), (''dr'', JNum (Fin 90))]])]) =
     Some ([], sticker 30 0 90 [(''layers'', JArr [shape_layer]), (''tgs'', JNum (Fin 1))])"
    unfolding validate_def long_30_0_90
    by (simp add: eval_defs e2)
  have 2: "TGSKit_validate example_host (sticker 30 0 90 [(''layers'', JArr [shape_layer]), (''markers'', JArr [])]) =
     Some [''Must not have markers'']"
    unfolding TGSKit_validate_def long_30_0_90
    by (simp add: TGSKit_eval_defs TGSKit_checkLayer_def shape_layer_def TGSKit_checkItems_root)
  from 1 2 show ?thesis ..
qed

text \<open>
  C8, as the code has it. \<^verbatim>\<open>validate\<close> calls \<^verbatim>\<open>generate\<close>, which deletes \<^verbatim>\<open>fonts\<close> and \<^verbatim>\<open>chars\<close> from
  the document. A second call therefore returns the list of the first call without the
  diagnostics on fonts and glyph chars, and leaves the document as the first call left it
  (so every later call returns what the second returned).
\<close>

theorem second_call:
  assumes "validate h d = Some (e1, d1)"
  shows "validate h d1 =
     Some (filter (\<lambda>e. message e \<noteq> ''Should not have fonts'' \<and>
                        message e \<noteq> ''Should not have glyph chars'') e1, d1)"
proof -
  from assms obtain fr long dims ddd assets layers fonts chars and sz :: nat where
    c: "andalso (field_ne h d ''fr'' (Fin 30)) (field_ne h d ''fr'' (Fin 60)) = Some fr"
      "longer_than_3 h d = Some long"
      "orelse (field_ne h d ''w'' (Fin 512)) (field_ne h d ''h'' (Fin 512)) = Some dims"
      "andalso (field_not_null d ''ddd'') (field_ne h d ''ddd'' (Fin 0)) = Some ddd"
      "assets_block h d = Some assets"
      "layers_block h d = Some layers"
    and f: "has_nonempty_list d ''fonts'' = Some fonts" "has_nonempty_list d ''chars'' = Some chars"
    and g: "generate h d = Some (sz, d1)"
    and e: "e1 = push_if fr (Diag ''Frame rate must be exactly 30 or 60'' None)
       @ push_if long (Diag ''Should not be longer than 3 seconds'' None)
       @ push_if dims (Diag ''Dimensions should be exactly 512pxx512px'' None)
       @ push_if ddd (Diag ''Should not have 3D layers'' None)
       @ assets
       @ layers
       @ push_if fonts (Diag ''Should not have fonts'' None)
       @ push_if chars (Diag ''Should not have glyph chars'' None)
       @ push_if (65536 < sz) (Diag ''Total sticker size should not exceed 64 KB'' None)"
    by (rule validate_SomeE)
  have a0: "assets = []" using c(5) by (rule assets_block_empty)
  have kept: "filter (\<lambda>e. message e \<noteq> ''Should not have fonts'' \<and>
                        message e \<noteq> ''Should not have glyph chars'') e1 =
       push_if fr (Diag ''Frame rate must be exactly 30 or 60'' None)
       @ push_if long (Diag ''Should not be longer than 3 seconds'' None)
       @ push_if dims (Diag ''Dimensions should be exactly 512pxx512px'' None)
       @ push_if ddd (Diag ''Should not have 3D layers'' None)
       @ assets
       @ layers
       @ push_if (65536 < sz) (Diag ''Total sticker size should not exceed 64 KB'' None)"
    by (simp add: e a0 filter_push_if layers_block_kept [OF c(6)])
  have sz: "sz = gzip_size h d1" using g by (rule generate_size)
  have again: "andalso (field_ne h d1 ''fr'' (Fin 30)) (field_ne h d1 ''fr'' (Fin 60)) = Some fr \<and>
      longer_than_3 h d1 = Some long \<and>
      orelse (field_ne h d1 ''w'' (Fin 512)) (field_ne h d1 ''h'' (Fin 512)) = Some dims \<and>
      andalso (field_not_null d1 ''ddd'') (field_ne h d1 ''ddd'' (Fin 0)) = Some ddd \<and>
      assets_block h d1 = Some assets \<and>
      layers_block h d1 = Some layers \<and>
      is_object d1 \<and>
      has_nonempty_list d1 ''fonts'' = Some False \<and>
      has_nonempty_list d1 ''chars'' = Some False \<and>
      generate h d1 = Some (sz, d1)"
  proof (cases d)
    case (JObj kvs)
    with g have d1: "d1 = JObj (stripped kvs)" by (simp add: generate_obj)
    have sr: "\<And>k. k \<in> {''fr'', ''op'', ''ip'', ''w'', ''h'', ''ddd'', ''assets'', ''layers''} \<Longrightarrow>
      map_of (stripped kvs) k = map_of kvs k"
      by (rule stripped_reads)
    note r = checks_agree [OF sr, of h]
    note c' = c [unfolded JObj]
    have "generate h d1 = Some (sz, d1)"
      by (simp add: d1 generate_obj stripped_idem sz)
    then show ?thesis
      by (simp only: d1 r c' stripped_no_list) simp
  next
    case (JArr xs)
    with g have d1: "d1 = d" by (simp add: generate_def)
    have "has_nonempty_list d ''fonts'' = Some False" "has_nonempty_list d ''chars'' = Some False"
      by (simp_all add: JArr has_nonempty_list_def has_list_def andalso_def)
    then show ?thesis using c g by (simp add: d1) (simp add: JArr)
  qed (use g in \<open>simp_all add: generate_def\<close>)
  then obtain markers where m: "has_prop ''markers'' d1 = Some markers"
    using has_prop_object [of d1 "''markers''"] by blast
  show ?thesis
    unfolding validate_def using again by (simp add: m kept push_if_def)
qed

text \<open>
  An instance: a document with one glyph char.
\<close>

theorem second_call_witness:
  "validate example_host (sticker 30 0 90 [(''layers'', JArr [shape_layer]),
       (''chars'', JArr [JObj [(''ch'', JStr ''A'')]])]) =
     Some ([Diag ''Should not have glyph chars'' None],
           sticker 30 0 90 [(''layers'', JArr [shape_layer]), (''tgs'', JNum (Fin 1))]) \<and>
   validate example_host (sticker 30 0 90 [(''layers'', JArr [shape_layer]), (''tgs'', JNum (Fin 1))]) =
     Some ([], sticker 30 0 90 [(''layers'', JArr [shape_layer]), (''tgs'', JNum (Fin 1))])"
  using second_call [OF ev_chars] ev_chars by simp

text \<open>
  C8 as stated fails: on a document with one glyph char the first call returns the
  diagnostic on glyph chars and the second call returns nothing.
\<close>

theorem second_call_differs:
  "validate example_host (sticker 30 0 90 [(''layers'', JArr [shape_layer]),
       (''chars'', JArr [JObj [(''ch'', JStr ''A'')]])]) =
     Some ([Diag ''Should not have glyph chars'' None],
           sticker 30 0 90 [(''layers'', JArr [shape_layer]), (''tgs'', JNum (Fin 1))]) \<and>
   validate example_host (sticker 30 0 90 [(''layers'', JArr [shape_layer]), (''tgs'', JNum (Fin 1))]) =
     Some ([], sticker 30 0 90 [(''layers'', JArr [shape_layer]), (''tgs'', JNum (Fin 1))]) \<and>
   [Diag ''Should not have glyph chars'' None] \<noteq> []"
  using ev_chars ev_tgs by simp

text \<open>
  C9 is right about a decoded value that is not a string, and the code is not. A string that
  decodes as JSON to a value other than \<^verbatim>\<open>false\<close> is replaced by the decoded value, and \<^verbatim>\<open>load\<close>
  then hands that value to \<^verbatim>\<open>parseURL\<close> without testing that it is still a string: it fetches
  exactly when the string form of the value is a URL, and otherwise stores the value if it is
  an object (or throws). A decoded object, whose string form is \<^verbatim>\<open>[object Object]\<close>, is stored
  without a fetch; a decoded array that holds one string is fetched where that string is a
  URL, and what \<^verbatim>\<open>load\<close> stores is the response, not the array.
\<close>

theorem load_decoded:
  "(JSON_parse h s = Some v \<and> v \<noteq> JBool False \<and> parseURL h v = None \<longrightarrow>
      load h (JStr s) = (store v, [])) \<and>
   (JSON_parse h s = Some v \<and> v \<noteq> JBool False \<and> parseURL h v = Some u \<longrightarrow>
      snd (load h (JStr s)) = [u]) \<and>
   (JSON_parse h s = Some (JObj kvs) \<and> new_URL h ''[object Object]'' = None \<longrightarrow>
      load h (JStr s) = (Stored (JObj kvs), [])) \<and>
   (JSON_parse h s = Some (JArr [JStr t]) \<and> new_URL h t = Some u \<longrightarrow>
      load h (JStr s) =
        (case fetchPath h u of
           Resolved r \<Rightarrow> store r
         | Rejected \<Rightarrow> Thrown RemoteError
         | Pending \<Rightarrow> NeverSettles, [u]))"
  by (auto simp: load_def parseJSON_def Let_def store_def parseURL_object parseURL_def
      split: fetched.splits)

text \<open>
  Two instances: the text \<^verbatim>\<open>{}\<close> is stored as the empty object; the text of an array that holds
  the string \<^verbatim>\<open>http://example.com/a.json\<close> makes \<^verbatim>\<open>load\<close> fetch that URL and store the response,
  here an empty object, where the specification stores the array.
\<close>

theorem load_decoded_witness:
  "JSON_parse example_host ''{}'' = Some (JObj []) \<and>
   new_URL example_host ''[object Object]'' = None \<and>
   load example_host (JStr ''{}'') = (Stored (JObj []), []) \<and>
   JSON_parse example_host (''['' @ quoted ''http://example.com/a.json'' @ '']'') =
     Some (JArr [JStr ''http://example.com/a.json'']) \<and>
   new_URL example_host ''http://example.com/a.json'' = Some ''http://example.com/a.json'' \<and>
   load example_host (JStr (''['' @ quoted ''http://example.com/a.json'' @ '']'')) =
     (Stored (JObj []), [''http://example.com/a.json''])"
proof -
  have 1: "JSON_parse example_host ''{}'' = Some (JObj [])" by (simp add: example_host_def)
  have 2: "new_URL example_host ''[object Object]'' = None" by (simp add: example_host_def)
  have 3: "JSON_parse example_host (''['' @ quoted ''http://example.com/a.json'' @ '']'') =
     Some (JArr [JStr ''http://example.com/a.json''])"
    by (simp add: example_host_def quoted_def)
  have 4: "new_URL example_host ''http://example.com/a.json'' = Some ''http://example.com/a.json''"
    by (simp add: example_host_def)
  have 5: "fetchPath example_host ''http://example.com/a.json'' = Resolved (JObj [])"
    by (simp add: example_host_def)
  from load_decoded [of example_host "''{}''" "JObj []" u "[]"] 1 2
  have a: "load example_host (JStr ''{}'') = (Stored (JObj []), [])" by simp
  from load_decoded [of example_host "''['' @ quoted ''http://example.com/a.json'' @ '']''" v
      "''http://example.com/a.json''" kvs "''http://example.com/a.json''"] 3 4 5
  have b: "load example_host (JStr (''['' @ quoted ''http://example.com/a.json'' @ '']'')) =
     (Stored (JObj []), [''http://example.com/a.json''])"
    by (simp add: store_def)
  from 1 2 3 4 a b show ?thesis by blast
qed

text \<open>
  A decoded string is handed to \<^verbatim>\<open>parseURL\<close> as well: the JSON text of a string that is a URL
  decodes, and \<^verbatim>\<open>load\<close> then fetches that URL and stores the response.
\<close>

theorem load_json_string_fetches:
  "JSON_parse example_host (quoted ''http://example.com/a.json'') = Some (JStr ''http://example.com/a.json'') \<and>
   load example_host (JStr (quoted ''http://example.com/a.json'')) =
     (Stored (JObj []), [''http://example.com/a.json''])"
  by (simp add: load_def parseJSON_def parseURL_def Let_def store_def example_host_def quoted_def)

text \<open>
  C10. For a string that decodes to \<^verbatim>\<open>false\<close>, \<^verbatim>\<open>parseJSON\<close> returns what it returns on a text
  that does not decode; \<^verbatim>\<open>load\<close> keeps the string, hands it to \<^verbatim>\<open>parseURL\<close> and, where this
  fails, throws its \<^verbatim>\<open>could not be loaded or is invalid\<close> error (where it succeeds, \<^verbatim>\<open>load\<close>
  fetches the URL).
\<close>

theorem load_false:
  assumes "JSON_parse h s = Some (JBool False)"
  shows "parseJSON h s = JBool False \<and>
     (\<forall>t. JSON_parse h t = None \<longrightarrow> parseJSON h t = parseJSON h s) \<and>
     (new_URL h s = None \<longrightarrow> load h (JStr s) = (Thrown InvalidResource, [])) \<and>
     (\<forall>u. new_URL h s = Some u \<longrightarrow> snd (load h (JStr s)) = [u])"
  using assms
  by (auto simp: load_def parseJSON_def parseURL_def Let_def store_def split: fetched.splits)

text \<open>
  An instance: the string \<^verbatim>\<open>false\<close>.
\<close>

theorem load_false_witness:
  "JSON_parse example_host ''false'' = Some (JBool False) \<and>
   new_URL example_host ''false'' = None \<and>
   load example_host (JStr ''false'') = (Thrown InvalidResource, [])"
proof -
  have 1: "JSON_parse example_host ''false'' = Some (JBool False)" by (simp add: example_host_def)
  have 2: "new_URL example_host ''false'' = None" by (simp add: example_host_def)
  from load_false [OF 1] 1 2 show ?thesis by simp
qed

end
